theory Spec2Isabelle
  imports Complex_Main
begin

section \<open>The Animator of js/animator.js\<close>

text \<open>
  The class \<open>Animator\<close> holds a reference to a THREE.Object3D (the model), a saved
  rest pose (\<open>initialState\<close>), the name of the current animation, a speed, a playing
  flag and a clock. Its methods mutate the model's \<open>position\<close>, \<open>rotation\<close> and
  \<open>scale\<close> objects in place.

  Conventions of the embedding:
  \<^item> JavaScript numbers are read as real numbers: rounding, NaN and the infinities of
    IEEE doubles are not modelled.
  \<^item> A THREE.Vector3 and a THREE.Euler are objects with three numeric fields \<open>x\<close>,
    \<open>y\<close>, \<open>z\<close>; they live in a heap and are handled by reference, as in the source.
    The rotation order of an Euler and the quaternion three.js keeps beside it are not
    modelled (no method of the class changes the order).
  \<^item> A JavaScript string is a list of code units; the model covers the code units
    U+0000 to U+00FF (the type \<open>char\<close>).
  \<^item> \<open>Math.random()\<close> is an input: a method that may draw random numbers takes the
    sequence of values the calls return.
  \<^item> A method that can throw returns a completion beside the state it leaves behind.
\<close>

subsection \<open>Heap, vectors and the animator's fields\<close>

datatype axis = X | Y | Z

type_synonym vector3 = "axis \<Rightarrow> real"

type_synonym ref = nat

text \<open>An Object3D, as far as the animator uses it: the references held by its
  (read-only) properties \<open>position\<close>, \<open>rotation\<close> and \<open>scale\<close>. The object literal
  built by \<open>saveInitialState\<close> has the same three properties.\<close>

record object3d =
  position :: ref
  rotation :: ref
  scale :: ref

text \<open>The fields of \<open>this\<close> set by the constructor, with the heap they point into.
  \<open>fresh\<close> is the next unused reference: \<open>clone()\<close> allocates there.\<close>

record state =
  heap :: "ref \<Rightarrow> vector3"
  fresh :: ref
  model :: "object3d option"
  currentAnimation :: "string option"
  speed :: real
  isPlaying :: bool
  time :: real
  initialState :: "object3d option"

datatype completion = Normal | TypeError

type_synonym random = "nat \<Rightarrow> real"

type_synonym animation = "real \<Rightarrow> random \<Rightarrow> state \<Rightarrow> completion \<times> state"

text \<open>Reading and assigning one field of a vector: \<open>v.y\<close> and \<open>v.y = a\<close>.\<close>

definition rd :: "ref \<Rightarrow> axis \<Rightarrow> state \<Rightarrow> real" where
  "rd r a s = heap s r a"

definition wr :: "ref \<Rightarrow> axis \<Rightarrow> real \<Rightarrow> state \<Rightarrow> state" where
  "wr r a v s = s\<lparr>heap := (heap s)(r := (heap s r)(a := v))\<rparr>"

text \<open>The three.js methods the class calls: \<open>v.set(x, y, z)\<close>, \<open>v.setScalar(a)\<close>,
  \<open>v.copy(w)\<close> and \<open>v.clone()\<close>.\<close>

definition Vector3_set :: "ref \<Rightarrow> real \<Rightarrow> real \<Rightarrow> real \<Rightarrow> state \<Rightarrow> state" where
  "Vector3_set r a b c s =
     s\<lparr>heap := (heap s)(r := (\<lambda>k. case k of X \<Rightarrow> a | Y \<Rightarrow> b | Z \<Rightarrow> c))\<rparr>"

definition Vector3_setScalar :: "ref \<Rightarrow> real \<Rightarrow> state \<Rightarrow> state" where
  "Vector3_setScalar r a s = s\<lparr>heap := (heap s)(r := (\<lambda>k. a))\<rparr>"

definition Vector3_copy :: "ref \<Rightarrow> ref \<Rightarrow> state \<Rightarrow> state" where
  "Vector3_copy dst src s = s\<lparr>heap := (heap s)(dst := heap s src)\<rparr>"

definition Vector3_clone :: "ref \<Rightarrow> state \<Rightarrow> ref \<times> state" where
  "Vector3_clone r s =
     (fresh s, s\<lparr>heap := (heap s)(fresh s := heap s r), fresh := Suc (fresh s)\<rparr>)"

text \<open>The remainder operator \<open>a % b\<close> on numbers: the quotient is truncated towards
  zero, so the result has the sign of \<open>a\<close>.\<close>

definition fmod :: "real \<Rightarrow> real \<Rightarrow> real" where
  "fmod a b = a - b * of_int (if 0 \<le> a / b then \<lfloor>a / b\<rfloor> else \<lceil>a / b\<rceil>)"

text \<open>The constructor. The heap and its allocation pointer are those of the page at
  the time of the call.\<close>

definition new_Animator :: "(ref \<Rightarrow> vector3) \<Rightarrow> ref \<Rightarrow> state" where
  "new_Animator h n =
     \<lparr>heap = h, fresh = n, model = None, currentAnimation = None, speed = 1,
      isPlaying = True, time = 0, initialState = None\<rparr>"

subsection \<open>The animation methods\<close>

text \<open>Every animation method starts with \<open>if (!this.model) return;\<close> and then reads
  \<open>this.initialState.\<dots>\<close> before it assigns anything: with a model and no saved
  state that read throws a TypeError and nothing has been written. \<open>with_model\<close> is
  this common prologue; the body gets the model, the saved state and the heap.\<close>

definition with_model :: "(object3d \<Rightarrow> object3d \<Rightarrow> state \<Rightarrow> state) \<Rightarrow> state \<Rightarrow> completion \<times> state" where
  "with_model body s =
     (case model s of
        None \<Rightarrow> (Normal, s)
      | Some m \<Rightarrow>
          (case initialState s of
             None \<Rightarrow> (TypeError, s)
           | Some init \<Rightarrow> (Normal, body m init s)))"

definition animateRotate :: animation where
  "animateRotate t rnd = with_model (\<lambda>m init s.
     wr (rotation m) Y (rd (rotation init) Y s + t) s)"

definition animateSpin :: animation where
  "animateSpin t rnd = with_model (\<lambda>m init s.
     wr (rotation m) Y (rd (rotation init) Y s + t * 4) s)"

definition animateRoll :: animation where
  "animateRoll t rnd = with_model (\<lambda>m init s.
     wr (rotation m) X (rd (rotation init) X s + t * 2) s)"

definition animateFlip :: animation where
  "animateFlip t rnd = with_model (\<lambda>m init s.
     let s1 = wr (rotation m) X (rd (rotation init) X s + t * 2) s;
         bounce = \<bar>sin (t * 2)\<bar> * 0.3
     in wr (position m) Y (rd (position init) Y s1 + bounce) s1)"

definition animateBounce :: animation where
  "animateBounce t rnd = with_model (\<lambda>m init s.
     let bounce = \<bar>sin (t * 4)\<bar> * 0.5
     in wr (position m) Y (rd (position init) Y s + bounce) s)"

definition animateFloat :: animation where
  "animateFloat t rnd = with_model (\<lambda>m init s.
     let float = sin (t * 1.5) * 0.2
     in wr (position m) Y (rd (position init) Y s + float + 0.1) s)"

definition animateJump :: animation where
  "animateJump t rnd = with_model (\<lambda>m init s.
     let cycle = fmod t (pi * 2);
         height = max 0 (sin (cycle * 2)) * 1.0;
         s1 = wr (position m) Y (rd (position init) Y s + height) s;
         squash = 1 - \<bar>sin (cycle * 2)\<bar> * 0.15;
         stretch = 1 + \<bar>sin (cycle * 2)\<bar> * 0.15;
         base = rd (scale init) X s1
     in Vector3_set (scale m) (base * squash) (base * stretch) (base * squash) s1)"

definition animateHop :: animation where
  "animateHop t rnd = with_model (\<lambda>m init s.
     let hop = \<bar>sin (t * 5)\<bar> * 0.3;
         s1 = wr (position m) Y (rd (position init) Y s + hop) s
     in wr (position m) X (rd (position init) X s1 + sin (t * 2.5) * 0.2) s1)"

definition animateLevitate :: animation where
  "animateLevitate t rnd = with_model (\<lambda>m init s.
     let rise = sin (t * 0.5) * 0.3 + 0.5;
         wobble = sin (t * 3) * 0.02;
         s1 = wr (position m) Y (rd (position init) Y s + rise) s
     in wr (rotation m) Y (rd (rotation init) Y s1 + wobble) s1)"

definition animatePulse :: animation where
  "animatePulse t rnd = with_model (\<lambda>m init s.
     let scale' = 1 + sin (t * 4) * 0.15;
         base = rd (scale init) X s
     in Vector3_setScalar (scale m) (base * scale') s)"

definition animateBreathe :: animation where
  "animateBreathe t rnd = with_model (\<lambda>m init s.
     let breathe = 1 + sin (t * 1.5) * 0.08;
         base = rd (scale init) X s;
         s1 = Vector3_setScalar (scale m) (base * breathe) s
     in wr (position m) Y (rd (position init) Y s1 + sin (t * 1.5) * 0.05) s1)"

definition animateHeartbeat :: animation where
  "animateHeartbeat t rnd = with_model (\<lambda>m init s.
     let beat = sin (t * 8);
         scale' = 1 + (if beat > 0.7 then 0.15 else if beat > 0.3 then 0.08 else 0);
         base = rd (scale init) X s
     in Vector3_setScalar (scale m) (base * scale') s)"

definition animateGrow :: animation where
  "animateGrow t rnd = with_model (\<lambda>m init s.
     let grow = 1 + (sin (t * 0.5) + 1) * 0.25;
         base = rd (scale init) X s
     in Vector3_setScalar (scale m) (base * grow) s)"

definition animateShrink :: animation where
  "animateShrink t rnd = with_model (\<lambda>m init s.
     let shrink = 1 - (sin (t * 0.5) + 1) * 0.2;
         base = rd (scale init) X s
     in Vector3_setScalar (scale m) (base * max 0.3 shrink) s)"

definition animateShake :: animation where
  "animateShake t rnd = with_model (\<lambda>m init s.
     let shake = sin (t * 25) * 0.05
     in wr (position m) X (rd (position init) X s + shake) s)"

definition animateWave :: animation where
  "animateWave t rnd = with_model (\<lambda>m init s.
     let s1 = wr (rotation m) Z (rd (rotation init) Z s + sin (t * 2) * 0.4) s
     in wr (position m) Y (rd (position init) Y s1 + sin (t * 2) * 0.1) s1)"

definition animateSwing :: animation where
  "animateSwing t rnd = with_model (\<lambda>m init s.
     wr (rotation m) Z (rd (rotation init) Z s + sin (t * 2) * 0.6) s)"

definition animateSway :: animation where
  "animateSway t rnd = with_model (\<lambda>m init s.
     let s1 = wr (rotation m) Z (rd (rotation init) Z s + sin (t * 1.5) * 0.2) s
     in wr (position m) X (rd (position init) X s1 + sin (t * 1.5) * 0.1) s1)"

definition animateWobble :: animation where
  "animateWobble t rnd = with_model (\<lambda>m init s.
     let s1 = wr (rotation m) X (rd (rotation init) X s + sin (t * 3) * 0.25) s
     in wr (rotation m) Z (rd (rotation init) Z s1 + cos (t * 3) * 0.25) s1)"

definition animateWalk :: animation where
  "animateWalk t rnd = with_model (\<lambda>m init s.
     let step = \<bar>sin (t * 4)\<bar> * 0.1;
         sway = sin (t * 2) * 0.1;
         bob = sin (t * 4) * 0.05;
         s1 = wr (position m) Y (rd (position init) Y s + step) s;
         s2 = wr (rotation m) Z (rd (rotation init) Z s1 + sway) s1
     in wr (position m) X (rd (position init) X s2 + bob) s2)"

definition animateRun :: animation where
  "animateRun t rnd = with_model (\<lambda>m init s.
     let step = \<bar>sin (t * 8)\<bar> * 0.15;
         lean = sin (t * 4) * 0.15;
         bounce = \<bar>sin (t * 8)\<bar> * 0.1;
         s1 = wr (position m) Y (rd (position init) Y s + step + bounce) s;
         s2 = wr (rotation m) Z (rd (rotation init) Z s1 + lean) s1
     in wr (rotation m) X (rd (rotation init) X s2 + 0.1) s2)"

definition animateDance :: animation where
  "animateDance t rnd = with_model (\<lambda>m init s.
     let s1 = wr (rotation m) Y (rd (rotation init) Y s + sin (t * 4) * 0.6) s;
         s2 = wr (position m) Y (rd (position init) Y s1 + \<bar>sin (t * 6)\<bar> * 0.4) s1;
         s3 = wr (rotation m) Z (rd (rotation init) Z s2 + sin (t * 3) * 0.25) s2;
         scale' = 1 + sin (t * 6) * 0.08;
         base = rd (scale init) X s3
     in Vector3_setScalar (scale m) (base * scale') s3)"

definition animateMarch :: animation where
  "animateMarch t rnd = with_model (\<lambda>m init s.
     let step = \<bar>sin (t * 3)\<bar> * 0.2;
         swing = sin (t * 3) * 0.1;
         s1 = wr (position m) Y (rd (position init) Y s + step) s
     in wr (rotation m) Z (rd (rotation init) Z s1 + swing) s1)"

definition animateStrut :: animation where
  "animateStrut t rnd = with_model (\<lambda>m init s.
     let step = \<bar>sin (t * 2.5)\<bar> * 0.12;
         sway = sin (t * 2.5) * 0.2;
         hip = sin (t * 2.5) * 0.15;
         s1 = wr (position m) Y (rd (position init) Y s + step) s;
         s2 = wr (rotation m) Z (rd (rotation init) Z s1 + sway) s1
     in wr (position m) X (rd (position init) X s2 + hip) s2)"

definition animateSpiral :: animation where
  "animateSpiral t rnd = with_model (\<lambda>m init s.
     let radius = 0.3;
         s1 = wr (position m) X (rd (position init) X s + cos (t * 2) * radius) s;
         s2 = wr (position m) Z (rd (position init) Z s1 + sin (t * 2) * radius) s1;
         s3 = wr (position m) Y (rd (position init) Y s2 + sin (t * 0.5) * 0.3) s2
     in wr (rotation m) Y (rd (rotation init) Y s3 + t * 2) s3)"

definition animateOrbit :: animation where
  "animateOrbit t rnd = with_model (\<lambda>m init s.
     let radius = 0.5;
         s1 = wr (position m) X (rd (position init) X s + cos (t * 1.5) * radius) s;
         s2 = wr (position m) Z (rd (position init) Z s1 + sin (t * 1.5) * radius) s1
     in wr (rotation m) Y (rd (rotation init) Y s2 + t * 1.5) s2)"

definition animateFly :: animation where
  "animateFly t rnd = with_model (\<lambda>m init s.
     let glide = sin (t * 0.8) * 0.5 + 0.5;
         tilt = sin (t * 1.5) * 0.15;
         sway = sin (t * 2) * 0.2;
         s1 = wr (position m) Y (rd (position init) Y s + glide) s;
         s2 = wr (rotation m) Z (rd (rotation init) Z s1 + tilt) s1
     in wr (position m) X (rd (position init) X s2 + sway) s2)"

definition animateZigzag :: animation where
  "animateZigzag t rnd = with_model (\<lambda>m init s.
     let zigzag = sin (t * 4) * 0.4;
         forward = sin (t * 2) * 0.2;
         s1 = wr (position m) X (rd (position init) X s + zigzag) s
     in wr (position m) Z (rd (position init) Z s1 + forward) s1)"

definition animatePendulum :: animation where
  "animatePendulum t rnd = with_model (\<lambda>m init s.
     let swing = sin (t * 2) * 0.8;
         rise = \<bar>cos (t * 2)\<bar> * 0.2;
         s1 = wr (rotation m) Z (rd (rotation init) Z s + swing) s
     in wr (position m) Y (rd (position init) Y s1 + rise) s1)"

definition animateTornado :: animation where
  "animateTornado t rnd = with_model (\<lambda>m init s.
     let radius = sin (t * 0.5) * 0.3 + 0.2;
         s1 = wr (position m) X (rd (position init) X s + cos (t * 5) * radius) s;
         s2 = wr (position m) Z (rd (position init) Z s1 + sin (t * 5) * radius) s1;
         s3 = wr (position m) Y (rd (position init) Y s2 + sin (t * 2) * 0.3) s2
     in wr (rotation m) Y (rd (rotation init) Y s3 + t * 8) s3)"

text \<open>\<open>animateEarthquake\<close> calls \<open>Math.random()\<close> three times, for x, z and y in
  this order: the draws are \<open>rnd 0\<close>, \<open>rnd 1\<close> and \<open>rnd 2\<close>.\<close>

definition animateEarthquake :: animation where
  "animateEarthquake t rnd = with_model (\<lambda>m init s.
     let shakeX = (rnd 0 - 0.5) * 0.1;
         shakeZ = (rnd 1 - 0.5) * 0.1;
         shakeY = (rnd 2 - 0.5) * 0.05;
         s1 = wr (position m) X (rd (position init) X s + shakeX) s;
         s2 = wr (position m) Z (rd (position init) Z s1 + shakeZ) s1
     in wr (position m) Y (rd (position init) Y s2 + shakeY) s2)"

definition animateCrazy :: animation where
  "animateCrazy t rnd = with_model (\<lambda>m init s.
     let s1 = wr (rotation m) X (rd (rotation init) X s + sin (t * 7) * 0.5) s;
         s2 = wr (rotation m) Y (rd (rotation init) Y s1 + t * 3) s1;
         s3 = wr (rotation m) Z (rd (rotation init) Z s2 + cos (t * 5) * 0.4) s2;
         s4 = wr (position m) Y (rd (position init) Y s3 + \<bar>sin (t * 8)\<bar> * 0.4) s3;
         s5 = wr (position m) X (rd (position init) X s4 + sin (t * 6) * 0.3) s4;
         scale' = 1 + sin (t * 10) * 0.1;
         base = rd (scale init) X s5
     in Vector3_setScalar (scale m) (base * scale') s5)"

subsection \<open>The registry, the alias table and property lookup\<close>

text \<open>\<open>this.animations\<close> and \<open>this.aliases\<close> are object literals: their own properties in
  insertion order, which is the order \<open>Object.keys\<close> and \<open>Object.entries\<close> enumerate
  (no key is an integer index).\<close>

definition animations :: "(string \<times> animation) list" where
  "animations =
     [(''rotate'', animateRotate), (''spin'', animateSpin), (''roll'', animateRoll),
      (''flip'', animateFlip),
      (''bounce'', animateBounce), (''float'', animateFloat), (''jump'', animateJump),
      (''hop'', animateHop), (''levitate'', animateLevitate),
      (''pulse'', animatePulse), (''breathe'', animateBreathe),
      (''heartbeat'', animateHeartbeat), (''grow'', animateGrow), (''shrink'', animateShrink),
      (''shake'', animateShake), (''wave'', animateWave), (''swing'', animateSwing),
      (''sway'', animateSway), (''wobble'', animateWobble),
      (''walk'', animateWalk), (''run'', animateRun), (''dance'', animateDance),
      (''march'', animateMarch), (''strut'', animateStrut),
      (''spiral'', animateSpiral), (''orbit'', animateOrbit), (''fly'', animateFly),
      (''zigzag'', animateZigzag), (''pendulum'', animatePendulum),
      (''tornado'', animateTornado), (''earthquake'', animateEarthquake),
      (''crazy'', animateCrazy)]"

definition aliases :: "(string \<times> string) list" where
  "aliases =
     [(''rotating'', ''rotate''), (''turn'', ''rotate''), (''turning'', ''rotate''),
      (''spinning'', ''spin''), (''twirl'', ''spin''),
      (''bouncing'', ''bounce''), (''boing'', ''bounce''),
      (''floating'', ''float''), (''hover'', ''float''), (''hovering'', ''float''),
      (''pulsing'', ''pulse''), (''throb'', ''pulse''),
      (''waving'', ''wave''),
      (''shaking'', ''shake''), (''vibrate'', ''shake''), (''vibrating'', ''shake''),
      (''swinging'', ''swing''),
      (''rolling'', ''roll''),
      (''flipping'', ''flip''),
      (''wobbling'', ''wobble''),
      (''jumping'', ''jump''), (''leap'', ''jump''),
      (''walking'', ''walk''), (''stepping'', ''walk''),
      (''running'', ''run''), (''jog'', ''run''), (''jogging'', ''run''), (''sprint'', ''run''),
      (''dancing'', ''dance''), (''boogie'', ''dance''), (''groove'', ''dance''),
      (''breathing'', ''breathe''),
      (''flying'', ''fly''), (''soar'', ''fly''), (''soaring'', ''fly''), (''glide'', ''fly''),
      (''spiraling'', ''spiral''), (''corkscrew'', ''spiral''),
      (''orbiting'', ''orbit''), (''circle'', ''orbit''), (''circling'', ''orbit''),
      (''hopping'', ''hop''), (''skip'', ''hop''),
      (''marching'', ''march''), (''parade'', ''march''),
      (''strutting'', ''strut''),
      (''swaying'', ''sway''), (''rock'', ''sway''),
      (''levitating'', ''levitate''), (''rise'', ''levitate''),
      (''zig-zag'', ''zigzag''), (''snake'', ''zigzag''),
      (''wild'', ''crazy''), (''random'', ''crazy''), (''chaos'', ''crazy'')]"

text \<open>Both literals inherit from \<open>Object.prototype\<close>, and \<open>obj[key]\<close> looks a key up
  along the prototype chain. The table lists the properties of \<open>Object.prototype\<close>
  by what the value does when it is called as \<open>f(number)\<close> with no receiver, which is how
  \<open>update\<close> calls it: a function that returns, a function that throws a TypeError
  (it converts the undefined receiver to an object), or a value that is not a function
  (\<open>__proto__\<close> reads the prototype object itself). None of these calls has an effect on
  the animator or the model.\<close>

datatype builtin = Returns | Throws | Not_callable

definition Object_prototype :: "(string \<times> builtin) list" where
  "Object_prototype =
     [(''constructor'', Returns), (''__proto__'', Not_callable),
      (''hasOwnProperty'', Throws), (''isPrototypeOf'', Returns),
      (''propertyIsEnumerable'', Throws), (''toLocaleString'', Throws),
      (''toString'', Returns), (''valueOf'', Throws),
      (''__defineGetter__'', Throws), (''__defineSetter__'', Throws),
      (''__lookupGetter__'', Throws), (''__lookupSetter__'', Throws)]"

datatype 'a property = Undefined | Own 'a | Inherited builtin

definition get :: "(string \<times> 'a) list \<Rightarrow> string \<Rightarrow> 'a property" where
  "get obj key =
     (case map_of obj key of
        Some v \<Rightarrow> Own v
      | None \<Rightarrow> (case map_of Object_prototype key of
                   Some b \<Rightarrow> Inherited b
                 | None \<Rightarrow> Undefined))"

text \<open>Every own value of the two tables is a function or a non-empty string, and every
  inherited value is a function or an object: a property is truthy when it is there.\<close>

definition truthy :: "'a property \<Rightarrow> bool" where
  "truthy p = (p \<noteq> Undefined)"

definition keys :: "(string \<times> 'a) list \<Rightarrow> string list" where
  "keys obj = map fst obj"

subsection \<open>Strings\<close>

text \<open>\<open>toLowerCase\<close> on U+0000 to U+00FF: the upper-case letters are A to Z and
  U+00C0 to U+00DE without the multiplication sign U+00D7; the lower-case letter is
  0x20 above, which sets bit 5.\<close>

definition toLowerCase_char :: "char \<Rightarrow> char" where
  "toLowerCase_char c =
     (let n = (of_char c :: nat)
      in if (65 \<le> n \<and> n \<le> 90) \<or> (192 \<le> n \<and> n \<le> 222 \<and> n \<noteq> 215)
         then (case c of Char b0 b1 b2 b3 b4 b5 b6 b7 \<Rightarrow> Char b0 b1 b2 b3 b4 True b6 b7)
         else c)"

definition toLowerCase :: "string \<Rightarrow> string" where
  "toLowerCase s = map toLowerCase_char s"

text \<open>\<open>trim\<close> removes white space and line terminators from both ends: below U+0100
  these are TAB, LF, VT, FF, CR, SP and NBSP.\<close>

definition isWhiteSpace :: "char \<Rightarrow> bool" where
  "isWhiteSpace c = ((of_char c :: nat) \<in> {9, 10, 11, 12, 13, 32, 160})"

definition trim :: "string \<Rightarrow> string" where
  "trim s = rev (dropWhile isWhiteSpace (rev (dropWhile isWhiteSpace s)))"

fun startsWith :: "string \<Rightarrow> string \<Rightarrow> bool" where
  "startsWith s [] = True"
| "startsWith [] (c # cs) = False"
| "startsWith (d # ds) (c # cs) = (d = c \<and> startsWith ds cs)"

text \<open>\<open>s.includes(sub)\<close>: \<open>sub\<close> occurs in \<open>s\<close> at some position.\<close>

fun includes_str :: "string \<Rightarrow> string \<Rightarrow> bool" where
  "includes_str [] sub = (sub = [])"
| "includes_str (c # cs) sub = (startsWith (c # cs) sub \<or> includes_str cs sub)"

subsection \<open>The methods of the class\<close>

definition saveInitialState :: "state \<Rightarrow> state" where
  "saveInitialState s =
     (case model s of
        None \<Rightarrow> s
      | Some m \<Rightarrow>
          (let (p, s1) = Vector3_clone (position m) s;
               (r, s2) = Vector3_clone (rotation m) s1;
               (c, s3) = Vector3_clone (scale m) s2
           in s3\<lparr>initialState := Some \<lparr>position = p, rotation = r, scale = c\<rparr>\<rparr>))"

definition setModel :: "object3d option \<Rightarrow> state \<Rightarrow> state" where
  "setModel m s = saveInitialState (s\<lparr>model := m\<rparr>)"

definition resetToInitialState :: "state \<Rightarrow> state" where
  "resetToInitialState s =
     (case (model s, initialState s) of
        (Some m, Some init) \<Rightarrow>
          (let s1 = Vector3_copy (position m) (position init) s;
               s2 = Vector3_copy (rotation m) (rotation init) s1;
               s3 = Vector3_copy (scale m) (scale init) s2
           in s3\<lparr>time := 0\<rparr>)
      | _ \<Rightarrow> s)"

text \<open>\<open>parsePrompt\<close> returns \<open>null\<close>, a string, or whatever \<open>this.aliases[lowerPrompt]\<close>
  holds. The two \<open>for\<close> loops return at the first hit, which is \<open>find\<close>.\<close>

datatype parsed = Null | Name string | Builtin builtin

definition parsePrompt :: "string \<Rightarrow> parsed" where
  "parsePrompt prompt =
     (let lowerPrompt = trim (toLowerCase prompt) in
      if truthy (get animations lowerPrompt) then Name lowerPrompt
      else
        (case get aliases lowerPrompt of
           Own animation \<Rightarrow> Name animation
         | Inherited b \<Rightarrow> Builtin b
         | Undefined \<Rightarrow>
             (case find (\<lambda>(alias, animation). includes_str lowerPrompt alias) aliases of
                Some (alias, animation) \<Rightarrow> Name animation
              | None \<Rightarrow>
                  (case find (\<lambda>animation. includes_str lowerPrompt animation) (keys animations) of
                     Some animation \<Rightarrow> Name animation
                   | None \<Rightarrow> Null))))"

text \<open>In \<open>parsed && this.animations[parsed]\<close> a string is truthy unless it is empty; a
  built-in object used as a key is converted to its source text, which names no
  property.\<close>

definition setAnimation :: "string \<Rightarrow> state \<Rightarrow> bool \<times> state" where
  "setAnimation animationName s =
     (case parsePrompt animationName of
        Name parsed \<Rightarrow>
          if parsed \<noteq> [] \<and> truthy (get animations parsed)
          then (True, s\<lparr>currentAnimation := Some parsed, time := 0\<rparr>)
          else (False, s)
      | Builtin b \<Rightarrow> (False, s)
      | Null \<Rightarrow> (False, s))"

definition setSpeed :: "real \<Rightarrow> state \<Rightarrow> state" where
  "setSpeed speed' s = s\<lparr>speed := speed'\<rparr>"

definition play :: "state \<Rightarrow> state" where
  "play s = s\<lparr>isPlaying := True\<rparr>"

definition pause :: "state \<Rightarrow> state" where
  "pause s = s\<lparr>isPlaying := False\<rparr>"

definition stop :: "state \<Rightarrow> state" where
  "stop s = resetToInitialState (s\<lparr>isPlaying := False, currentAnimation := None\<rparr>)"

text \<open>\<open>update\<close> returns at once when the model is null, the animation name is null or
  empty, or the flag is off. Otherwise it advances the clock and then looks the name
  up: an own method is called with the new time, an inherited function is called too
  (and may throw), an inherited object is not callable.\<close>

definition update :: "real \<Rightarrow> random \<Rightarrow> state \<Rightarrow> completion \<times> state" where
  "update deltaTime rnd s =
     (case (model s, currentAnimation s) of
        (Some m, Some name) \<Rightarrow>
          if name = [] \<or> \<not> isPlaying s then (Normal, s)
          else
            (let s1 = s\<lparr>time := time s + deltaTime * speed s\<rparr> in
             case get animations name of
               Own animFn \<Rightarrow> animFn (time s1) rnd s1
             | Inherited Returns \<Rightarrow> (Normal, s1)
             | Inherited Throws \<Rightarrow> (TypeError, s1)
             | Inherited Not_callable \<Rightarrow> (TypeError, s1)
             | Undefined \<Rightarrow> (Normal, s1))
      | _ \<Rightarrow> (Normal, s))"

definition getAvailableAnimations :: "string list" where
  "getAvailableAnimations = keys animations"

definition getCurrentAnimation :: "state \<Rightarrow> string option" where
  "getCurrentAnimation s = currentAnimation s"

subsection \<open>Sequences of calls\<close>

text \<open>A host drives the animator by a sequence of method calls. \<open>Animate k t rnd\<close> is a
  direct call of the method registered under \<open>k\<close>.\<close>

datatype call =
    SetModel "object3d option"
  | SetAnimation string
  | SetSpeed real
  | Play
  | Pause
  | Stop
  | Update real random
  | Animate string real random

fun step :: "call \<Rightarrow> state \<Rightarrow> state" where
  "step (SetModel m) s = setModel m s"
| "step (SetAnimation p) s = snd (setAnimation p s)"
| "step (SetSpeed v) s = setSpeed v s"
| "step Play s = play s"
| "step Pause s = pause s"
| "step Stop s = stop s"
| "step (Update dt rnd) s = snd (update dt rnd s)"
| "step (Animate k t rnd) s =
     (case map_of animations k of None \<Rightarrow> s | Some animFn \<Rightarrow> snd (animFn t rnd s))"

fun run :: "call list \<Rightarrow> state \<Rightarrow> state" where
  "run [] s = s"
| "run (c # cs) s = run cs (step c s)"

fun attaches :: "call \<Rightarrow> bool" where
  "attaches (SetModel (Some m)) = True"
| "attaches c = False"

subsection \<open>Transforms, the rest pose and absence of aliasing\<close>

datatype field = Position | Rotation | Scale

type_synonym transform = "field \<Rightarrow> vector3"

definition slot :: "object3d \<Rightarrow> field \<Rightarrow> ref" where
  "slot m f = (case f of Position \<Rightarrow> position m | Rotation \<Rightarrow> rotation m | Scale \<Rightarrow> scale m)"

definition transform_of :: "object3d \<Rightarrow> state \<Rightarrow> transform" where
  "transform_of m s = (\<lambda>f. heap s (slot m f))"

text \<open>The values saved in \<open>initialState\<close>.\<close>

definition rest_pose :: "state \<Rightarrow> transform option" where
  "rest_pose s = map_option (\<lambda>init. transform_of init s) (initialState s)"

definition refs :: "object3d \<Rightarrow> ref list" where
  "refs m = [position m, rotation m, scale m]"

text \<open>A host object: its three component objects are distinct and already allocated.\<close>

definition host_object :: "object3d \<Rightarrow> state \<Rightarrow> bool" where
  "host_object m s = (distinct (refs m) \<and> list_all (\<lambda>r. r < fresh s) (refs m))"

text \<open>The invariant of the class: an attached model comes with a saved state, and the
  six vectors of the two are distinct allocated objects.\<close>

definition animator_inv :: "state \<Rightarrow> bool" where
  "animator_inv s =
     (case model s of
        None \<Rightarrow> True
      | Some m \<Rightarrow>
          (case initialState s of
             None \<Rightarrow> False
           | Some init \<Rightarrow>
               distinct (refs m @ refs init) \<and>
               list_all (\<lambda>r. r < fresh s) (refs m @ refs init)))"

text \<open>The components each animation method assigns, read off its assignments
  (\<open>setScalar\<close> and \<open>set\<close> assign the three axes).\<close>

definition scale_xyz :: "(field \<times> axis) list" where
  "scale_xyz = [(Scale, X), (Scale, Y), (Scale, Z)]"

definition writes :: "(string \<times> (field \<times> axis) list) list" where
  "writes =
     [(''rotate'', [(Rotation, Y)]), (''spin'', [(Rotation, Y)]), (''roll'', [(Rotation, X)]),
      (''flip'', [(Rotation, X), (Position, Y)]),
      (''bounce'', [(Position, Y)]), (''float'', [(Position, Y)]),
      (''jump'', (Position, Y) # scale_xyz),
      (''hop'', [(Position, Y), (Position, X)]),
      (''levitate'', [(Position, Y), (Rotation, Y)]),
      (''pulse'', scale_xyz), (''breathe'', scale_xyz @ [(Position, Y)]),
      (''heartbeat'', scale_xyz), (''grow'', scale_xyz), (''shrink'', scale_xyz),
      (''shake'', [(Position, X)]), (''wave'', [(Rotation, Z), (Position, Y)]),
      (''swing'', [(Rotation, Z)]), (''sway'', [(Rotation, Z), (Position, X)]),
      (''wobble'', [(Rotation, X), (Rotation, Z)]),
      (''walk'', [(Position, Y), (Rotation, Z), (Position, X)]),
      (''run'', [(Position, Y), (Rotation, Z), (Rotation, X)]),
      (''dance'', [(Rotation, Y), (Position, Y), (Rotation, Z)] @ scale_xyz),
      (''march'', [(Position, Y), (Rotation, Z)]),
      (''strut'', [(Position, Y), (Rotation, Z), (Position, X)]),
      (''spiral'', [(Position, X), (Position, Z), (Position, Y), (Rotation, Y)]),
      (''orbit'', [(Position, X), (Position, Z), (Rotation, Y)]),
      (''fly'', [(Position, Y), (Rotation, Z), (Position, X)]),
      (''zigzag'', [(Position, X), (Position, Z)]),
      (''pendulum'', [(Rotation, Z), (Position, Y)]),
      (''tornado'', [(Position, X), (Position, Z), (Position, Y), (Rotation, Y)]),
      (''earthquake'', [(Position, X), (Position, Z), (Position, Y)]),
      (''crazy'', [(Rotation, X), (Rotation, Y), (Rotation, Z), (Position, Y), (Position, X)]
                  @ scale_xyz)]"

definition written :: "string \<Rightarrow> (field \<times> axis) set" where
  "written k = (case map_of writes k of None \<Rightarrow> {} | Some cs \<Rightarrow> set cs)"

subsection \<open>The resolver as the specification words it\<close>

text \<open>Lower-case and trim the input, then: an exact canonical identifier; an exact
  alias phrase; the first alias, in table order, whose phrase occurs in the input; the
  first canonical identifier, in registry order, that occurs in the input; otherwise
  nothing.\<close>

definition resolve_spec :: "string \<Rightarrow> string option" where
  "resolve_spec input =
     (let s = trim (toLowerCase input); ids = map fst animations
      in if s \<in> set ids then Some s
         else if s \<in> set (map fst aliases) then map_of aliases s
         else (case filter (\<lambda>(phrase, target). includes_str s phrase) aliases of
                 (phrase, target) # rest \<Rightarrow> Some target
               | [] \<Rightarrow>
                   (case filter (includes_str s) ids of
                      i # rest \<Rightarrow> Some i
                    | [] \<Rightarrow> None)))"

subsection \<open>The evaluator read off the methods\<close>

text \<open>A sample host: one object whose vectors are at the references 0, 1 and 2.
  \<open>at_rest rest\<close> is a new animator to which that object has just been attached in the
  pose \<open>rest\<close>; \<open>setModel\<close> puts the saved copies at 3, 4 and 5.\<close>

definition cube :: object3d where
  "cube = \<lparr>position = 0, rotation = 1, scale = 2\<rparr>"

definition posed :: "transform \<Rightarrow> ref \<Rightarrow> vector3" where
  "posed tr = (\<lambda>r. if r = 0 then tr Position else if r = 1 then tr Rotation else tr Scale)"

definition at_rest :: "transform \<Rightarrow> state" where
  "at_rest rest = setModel (Some cube) (new_Animator (posed rest) 3)"

text \<open>\<open>evaluate f t rnd rest\<close> is the transform the method \<open>f\<close> leaves on a model that
  was at its rest pose \<open>rest\<close>: the specification's \<open>evaluate(id, t, rest)\<close>, obtained by
  running the source method.\<close>

definition evaluate :: "animation \<Rightarrow> real \<Rightarrow> random \<Rightarrow> transform \<Rightarrow> transform" where
  "evaluate f t rnd rest = transform_of cube (snd (f t rnd (at_rest rest)))"

text \<open>\<open>overlay m W tr h\<close> is the heap \<open>h\<close> with the components \<open>W\<close> of the object \<open>m\<close>
  replaced by those of \<open>tr\<close>.\<close>

definition overlay :: "object3d \<Rightarrow> (field \<times> axis) set \<Rightarrow> transform \<Rightarrow> (ref \<Rightarrow> vector3) \<Rightarrow> ref \<Rightarrow> vector3" where
  "overlay m W tr h =
     (\<lambda>r a. if r = position m \<and> (Position, a) \<in> W then tr Position a
            else if r = rotation m \<and> (Rotation, a) \<in> W then tr Rotation a
            else if r = scale m \<and> (Scale, a) \<in> W then tr Scale a
            else h r a)"

text \<open>What a registered method does, in one statement: without a model nothing;
  with a model and no saved state a TypeError and nothing written; otherwise it
  changes the heap only, and when the six vectors are distinct the new heap is the old
  one with the components \<open>written k\<close> of the model replaced by \<open>evaluate\<close> of the saved
  pose.\<close>

definition effect_ok :: "string \<Rightarrow> animation \<Rightarrow> bool" where
  "effect_ok k f =
     (\<forall>t rnd s.
        (model s = None \<longrightarrow> f t rnd s = (Normal, s)) \<and>
        (model s \<noteq> None \<longrightarrow> initialState s = None \<longrightarrow> f t rnd s = (TypeError, s)) \<and>
        (\<forall>m i. model s = Some m \<longrightarrow> initialState s = Some i \<longrightarrow>
           f t rnd s = (Normal, s\<lparr>heap := heap (snd (f t rnd s))\<rparr>) \<and>
           (distinct (refs m @ refs i) \<longrightarrow>
              heap (snd (f t rnd s)) =
                overlay m (written k) (evaluate f t rnd (transform_of i s)) (heap s))))"

subsection \<open>Sample inputs\<close>

text \<open>\<open>ticks\<close> is a run of \<open>update\<close> calls, each with its frame time and the random
  numbers it may draw.\<close>

definition ticks :: "(real \<times> random) list \<Rightarrow> call list" where
  "ticks ds = map (\<lambda>(dt, rnd). Update dt rnd) ds"

text \<open>Two rest poses at the origin: one with scale (1, 1, 1), one with scale (1, 2, 3).\<close>

definition unit_pose :: transform where
  "unit_pose f a = (if f = Scale then 1 else 0)"

definition stretched_pose :: transform where
  "stretched_pose f a = (if f = Scale then (case a of X \<Rightarrow> 1 | Y \<Rightarrow> 2 | Z \<Rightarrow> 3) else 0)"

text \<open>Two random sources: every draw is 1/2 (no jitter in \<open>animateEarthquake\<close>), and
  every draw is 0.\<close>

definition no_jitter :: random where
  "no_jitter n = 1 / 2"

definition low_jitter :: random where
  "low_jitter n = 0"

text \<open>The sample animator after \<open>setAnimation("bounce")\<close>.\<close>

definition bouncing :: state where
  "bouncing = snd (setAnimation ''bounce'' (at_rest unit_pose))"

text \<open>The sample animator one second into the bounce, and a sequence of calls none of
  which attaches a model.\<close>

definition after_bounce :: state where
  "after_bounce = snd (update 1 no_jitter bouncing)"

definition sample_calls :: "call list" where
  "sample_calls = [Update 1 no_jitter, Pause, SetSpeed 2, Play, Animate ''crazy'' 3 low_jitter,
     SetAnimation ''spin'', Update 2 low_jitter, Stop, SetModel None]"

text \<open>The sample animator after rotating for one second and losing its model
  (\<open>removeModel\<close> of the application calls \<open>setModel(null)\<close>).\<close>

definition removed :: state where
  "removed = run [SetAnimation ''rotate'', Update 1 no_jitter, SetModel None] (at_rest unit_pose)"

text \<open>The sample animator one second into \<open>rotate\<close>, and the sample animator after
  \<open>setAnimation("constructor")\<close> and after \<open>setAnimation("__proto__")\<close>.\<close>

definition after_rotate :: state where
  "after_rotate = run [SetAnimation ''rotate'', Update 1 no_jitter] (at_rest unit_pose)"

definition named_constructor :: state where
  "named_constructor = snd (setAnimation ''constructor'' (at_rest unit_pose))"

definition named_proto :: state where
  "named_proto = snd (setAnimation ''__proto__'' (at_rest unit_pose))"

section \<open>Properties\<close>

subsection \<open>The effect of every animation method\<close>

lemmas prim_defs = with_model_def wr_def rd_def Vector3_set_def Vector3_setScalar_def Let_def

lemma at_rest_simps:
  "model (at_rest rest) = Some cube"
  "initialState (at_rest rest) = Some \<lparr>position = 3, rotation = 4, scale = 5\<rparr>"
  "heap (at_rest rest) 0 = rest Position"
  "heap (at_rest rest) 1 = rest Rotation"
  "heap (at_rest rest) 2 = rest Scale"
  "heap (at_rest rest) 3 = rest Position"
  "heap (at_rest rest) 4 = rest Rotation"
  "heap (at_rest rest) 5 = rest Scale"
  by (simp_all add: at_rest_def setModel_def saveInitialState_def new_Animator_def
      Vector3_clone_def cube_def posed_def Let_def)

lemma noalias:
  assumes "distinct (refs m @ refs i)"
  shows "position m \<noteq> rotation m" "rotation m \<noteq> position m"
        "position m \<noteq> scale m" "scale m \<noteq> position m"
        "rotation m \<noteq> scale m" "scale m \<noteq> rotation m"
        "position i \<noteq> position m" "position i \<noteq> rotation m" "position i \<noteq> scale m"
        "rotation i \<noteq> position m" "rotation i \<noteq> rotation m" "rotation i \<noteq> scale m"
        "scale i \<noteq> position m" "scale i \<noteq> rotation m" "scale i \<noteq> scale m"
        "position m \<noteq> position i" "rotation m \<noteq> position i" "scale m \<noteq> position i"
        "position m \<noteq> rotation i" "rotation m \<noteq> rotation i" "scale m \<noteq> rotation i"
        "position m \<noteq> scale i" "rotation m \<noteq> scale i" "scale m \<noteq> scale i"
  using assms by (auto simp add: refs_def)

lemma effect_okI:
  assumes f: "\<And>t rnd. f t rnd = with_model (body t rnd)"
    and only_heap: "\<And>t rnd m i s. body t rnd m i s = s\<lparr>heap := heap (body t rnd m i s)\<rparr>"
    and h: "\<And>t rnd m i s r a. distinct (refs m @ refs i) \<Longrightarrow>
          heap (body t rnd m i s) r a =
            overlay m (written k)
              (transform_of cube
                 (body t rnd cube \<lparr>position = 3, rotation = 4, scale = 5\<rparr>
                    (at_rest (transform_of i s)))) (heap s) r a"
  shows "effect_ok k f"
  unfolding effect_ok_def
proof (intro allI conjI impI)
  fix t rnd s
  show "f t rnd s = (Normal, s)" if "model s = None"
    using that by (simp add: f with_model_def)
  show "f t rnd s = (TypeError, s)" if "model s \<noteq> None" "initialState s = None"
    using that by (auto simp add: f with_model_def)
  fix m i
  assume mi: "model s = Some m" "initialState s = Some i"
  then have eq: "f t rnd s = (Normal, body t rnd m i s)"
    by (simp add: f with_model_def)
  show "f t rnd s = (Normal, s\<lparr>heap := heap (snd (f t rnd s))\<rparr>)"
    using only_heap[of t rnd m i s] by (simp add: eq)
  assume d: "distinct (refs m @ refs i)"
  have ev: "evaluate f t rnd tr =
      transform_of cube (body t rnd cube \<lparr>position = 3, rotation = 4, scale = 5\<rparr> (at_rest tr))" for tr
    by (simp add: evaluate_def f with_model_def at_rest_simps)
  show "heap (snd (f t rnd s)) = overlay m (written k) (evaluate f t rnd (transform_of i s)) (heap s)"
    by (intro ext) (simp add: eq ev h[OF d])
qed

lemma written_simps:
  "written ''rotate'' = {(Rotation, Y)}"
  "written ''spin'' = {(Rotation, Y)}"
  "written ''roll'' = {(Rotation, X)}"
  "written ''flip'' = {(Rotation, X), (Position, Y)}"
  "written ''bounce'' = {(Position, Y)}"
  "written ''float'' = {(Position, Y)}"
  "written ''jump'' = {(Position, Y), (Scale, X), (Scale, Y), (Scale, Z)}"
  "written ''hop'' = {(Position, Y), (Position, X)}"
  "written ''levitate'' = {(Position, Y), (Rotation, Y)}"
  "written ''pulse'' = {(Scale, X), (Scale, Y), (Scale, Z)}"
  "written ''breathe'' = {(Scale, X), (Scale, Y), (Scale, Z), (Position, Y)}"
  "written ''heartbeat'' = {(Scale, X), (Scale, Y), (Scale, Z)}"
  "written ''grow'' = {(Scale, X), (Scale, Y), (Scale, Z)}"
  "written ''shrink'' = {(Scale, X), (Scale, Y), (Scale, Z)}"
  "written ''shake'' = {(Position, X)}"
  "written ''wave'' = {(Rotation, Z), (Position, Y)}"
  "written ''swing'' = {(Rotation, Z)}"
  "written ''sway'' = {(Rotation, Z), (Position, X)}"
  "written ''wobble'' = {(Rotation, X), (Rotation, Z)}"
  "written ''walk'' = {(Position, Y), (Rotation, Z), (Position, X)}"
  "written ''run'' = {(Position, Y), (Rotation, Z), (Rotation, X)}"
  "written ''dance'' = {(Rotation, Y), (Position, Y), (Rotation, Z), (Scale, X), (Scale, Y), (Scale, Z)}"
  "written ''march'' = {(Position, Y), (Rotation, Z)}"
  "written ''strut'' = {(Position, Y), (Rotation, Z), (Position, X)}"
  "written ''spiral'' = {(Position, X), (Position, Z), (Position, Y), (Rotation, Y)}"
  "written ''orbit'' = {(Position, X), (Position, Z), (Rotation, Y)}"
  "written ''fly'' = {(Position, Y), (Rotation, Z), (Position, X)}"
  "written ''zigzag'' = {(Position, X), (Position, Z)}"
  "written ''pendulum'' = {(Rotation, Z), (Position, Y)}"
  "written ''tornado'' = {(Position, X), (Position, Z), (Position, Y), (Rotation, Y)}"
  "written ''earthquake'' = {(Position, X), (Position, Z), (Position, Y)}"
  "written ''crazy'' = {(Rotation, X), (Rotation, Y), (Rotation, Z), (Position, Y), (Position, X), (Scale, X), (Scale, Y), (Scale, Z)}"
  by (simp_all add: written_def writes_def scale_xyz_def)

lemmas eff_simps = overlay_def prim_defs at_rest_simps transform_of_def slot_def cube_def
  written_simps

lemma effect_rotate: "effect_ok ''rotate'' animateRotate"
  apply (rule effect_okI, rule animateRotate_def)
   apply (simp add: prim_defs)
  subgoal premises d for t rnd m i s r a
    using noalias[OF d] by (cases a; simp add: eff_simps)
  done

lemma effect_spin: "effect_ok ''spin'' animateSpin"
  apply (rule effect_okI, rule animateSpin_def)
   apply (simp add: prim_defs)
  subgoal premises d for t rnd m i s r a
    using noalias[OF d] by (cases a; simp add: eff_simps)
  done

lemma effect_roll: "effect_ok ''roll'' animateRoll"
  apply (rule effect_okI, rule animateRoll_def)
   apply (simp add: prim_defs)
  subgoal premises d for t rnd m i s r a
    using noalias[OF d] by (cases a; simp add: eff_simps)
  done

lemma effect_flip: "effect_ok ''flip'' animateFlip"
  apply (rule effect_okI, rule animateFlip_def)
   apply (simp add: prim_defs)
  subgoal premises d for t rnd m i s r a
    using noalias[OF d] by (cases a; simp add: eff_simps)
  done

lemma effect_bounce: "effect_ok ''bounce'' animateBounce"
  apply (rule effect_okI, rule animateBounce_def)
   apply (simp add: prim_defs)
  subgoal premises d for t rnd m i s r a
    using noalias[OF d] by (cases a; simp add: eff_simps)
  done

lemma effect_float: "effect_ok ''float'' animateFloat"
  apply (rule effect_okI, rule animateFloat_def)
   apply (simp add: prim_defs)
  subgoal premises d for t rnd m i s r a
    using noalias[OF d] by (cases a; simp add: eff_simps)
  done

lemma effect_jump: "effect_ok ''jump'' animateJump"
  apply (rule effect_okI, rule animateJump_def)
   apply (simp add: prim_defs)
  subgoal premises d for t rnd m i s r a
    using noalias[OF d] by (cases a; simp add: eff_simps)
  done

lemma effect_hop: "effect_ok ''hop'' animateHop"
  apply (rule effect_okI, rule animateHop_def)
   apply (simp add: prim_defs)
  subgoal premises d for t rnd m i s r a
    using noalias[OF d] by (cases a; simp add: eff_simps)
  done

lemma effect_levitate: "effect_ok ''levitate'' animateLevitate"
  apply (rule effect_okI, rule animateLevitate_def)
   apply (simp add: prim_defs)
  subgoal premises d for t rnd m i s r a
    using noalias[OF d] by (cases a; simp add: eff_simps)
  done

lemma effect_pulse: "effect_ok ''pulse'' animatePulse"
  apply (rule effect_okI, rule animatePulse_def)
   apply (simp add: prim_defs)
  subgoal premises d for t rnd m i s r a
    using noalias[OF d] by (cases a; simp add: eff_simps)
  done

lemma effect_breathe: "effect_ok ''breathe'' animateBreathe"
  apply (rule effect_okI, rule animateBreathe_def)
   apply (simp add: prim_defs)
  subgoal premises d for t rnd m i s r a
    using noalias[OF d] by (cases a; simp add: eff_simps)
  done

lemma effect_heartbeat: "effect_ok ''heartbeat'' animateHeartbeat"
  apply (rule effect_okI, rule animateHeartbeat_def)
   apply (simp add: prim_defs)
  subgoal premises d for t rnd m i s r a
    using noalias[OF d] by (cases a; simp add: eff_simps)
  done

lemma effect_grow: "effect_ok ''grow'' animateGrow"
  apply (rule effect_okI, rule animateGrow_def)
   apply (simp add: prim_defs)
  subgoal premises d for t rnd m i s r a
    using noalias[OF d] by (cases a; simp add: eff_simps)
  done

lemma effect_shrink: "effect_ok ''shrink'' animateShrink"
  apply (rule effect_okI, rule animateShrink_def)
   apply (simp add: prim_defs)
  subgoal premises d for t rnd m i s r a
    using noalias[OF d] by (cases a; simp add: eff_simps)
  done

lemma effect_shake: "effect_ok ''shake'' animateShake"
  apply (rule effect_okI, rule animateShake_def)
   apply (simp add: prim_defs)
  subgoal premises d for t rnd m i s r a
    using noalias[OF d] by (cases a; simp add: eff_simps)
  done

lemma effect_wave: "effect_ok ''wave'' animateWave"
  apply (rule effect_okI, rule animateWave_def)
   apply (simp add: prim_defs)
  subgoal premises d for t rnd m i s r a
    using noalias[OF d] by (cases a; simp add: eff_simps)
  done

lemma effect_swing: "effect_ok ''swing'' animateSwing"
  apply (rule effect_okI, rule animateSwing_def)
   apply (simp add: prim_defs)
  subgoal premises d for t rnd m i s r a
    using noalias[OF d] by (cases a; simp add: eff_simps)
  done

lemma effect_sway: "effect_ok ''sway'' animateSway"
  apply (rule effect_okI, rule animateSway_def)
   apply (simp add: prim_defs)
  subgoal premises d for t rnd m i s r a
    using noalias[OF d] by (cases a; simp add: eff_simps)
  done

lemma effect_wobble: "effect_ok ''wobble'' animateWobble"
  apply (rule effect_okI, rule animateWobble_def)
   apply (simp add: prim_defs)
  subgoal premises d for t rnd m i s r a
    using noalias[OF d] by (cases a; simp add: eff_simps)
  done

lemma effect_walk: "effect_ok ''walk'' animateWalk"
  apply (rule effect_okI, rule animateWalk_def)
   apply (simp add: prim_defs)
  subgoal premises d for t rnd m i s r a
    using noalias[OF d] by (cases a; simp add: eff_simps)
  done

lemma effect_run: "effect_ok ''run'' animateRun"
  apply (rule effect_okI, rule animateRun_def)
   apply (simp add: prim_defs)
  subgoal premises d for t rnd m i s r a
    using noalias[OF d] by (cases a; simp add: eff_simps)
  done

lemma effect_dance: "effect_ok ''dance'' animateDance"
  apply (rule effect_okI, rule animateDance_def)
   apply (simp add: prim_defs)
  subgoal premises d for t rnd m i s r a
    using noalias[OF d] by (cases a; simp add: eff_simps)
  done

lemma effect_march: "effect_ok ''march'' animateMarch"
  apply (rule effect_okI, rule animateMarch_def)
   apply (simp add: prim_defs)
  subgoal premises d for t rnd m i s r a
    using noalias[OF d] by (cases a; simp add: eff_simps)
  done

lemma effect_strut: "effect_ok ''strut'' animateStrut"
  apply (rule effect_okI, rule animateStrut_def)
   apply (simp add: prim_defs)
  subgoal premises d for t rnd m i s r a
    using noalias[OF d] by (cases a; simp add: eff_simps)
  done

lemma effect_spiral: "effect_ok ''spiral'' animateSpiral"
  apply (rule effect_okI, rule animateSpiral_def)
   apply (simp add: prim_defs)
  subgoal premises d for t rnd m i s r a
    using noalias[OF d] by (cases a; simp add: eff_simps)
  done

lemma effect_orbit: "effect_ok ''orbit'' animateOrbit"
  apply (rule effect_okI, rule animateOrbit_def)
   apply (simp add: prim_defs)
  subgoal premises d for t rnd m i s r a
    using noalias[OF d] by (cases a; simp add: eff_simps)
  done

lemma effect_fly: "effect_ok ''fly'' animateFly"
  apply (rule effect_okI, rule animateFly_def)
   apply (simp add: prim_defs)
  subgoal premises d for t rnd m i s r a
    using noalias[OF d] by (cases a; simp add: eff_simps)
  done

lemma effect_zigzag: "effect_ok ''zigzag'' animateZigzag"
  apply (rule effect_okI, rule animateZigzag_def)
   apply (simp add: prim_defs)
  subgoal premises d for t rnd m i s r a
    using noalias[OF d] by (cases a; simp add: eff_simps)
  done

lemma effect_pendulum: "effect_ok ''pendulum'' animatePendulum"
  apply (rule effect_okI, rule animatePendulum_def)
   apply (simp add: prim_defs)
  subgoal premises d for t rnd m i s r a
    using noalias[OF d] by (cases a; simp add: eff_simps)
  done

lemma effect_tornado: "effect_ok ''tornado'' animateTornado"
  apply (rule effect_okI, rule animateTornado_def)
   apply (simp add: prim_defs)
  subgoal premises d for t rnd m i s r a
    using noalias[OF d] by (cases a; simp add: eff_simps)
  done

lemma effect_earthquake: "effect_ok ''earthquake'' animateEarthquake"
  apply (rule effect_okI, rule animateEarthquake_def)
   apply (simp add: prim_defs)
  subgoal premises d for t rnd m i s r a
    using noalias[OF d] by (cases a; simp add: eff_simps)
  done

lemma effect_crazy: "effect_ok ''crazy'' animateCrazy"
  apply (rule effect_okI, rule animateCrazy_def)
   apply (simp add: prim_defs)
  subgoal premises d for t rnd m i s r a
    using noalias[OF d] by (cases a; simp add: eff_simps)
  done

lemma all_effect_ok: "list_all (\<lambda>(k, f). effect_ok k f) animations"
  unfolding animations_def
  by (simp only: list.pred_inject prod.case simp_thms
      effect_rotate effect_spin effect_roll effect_flip effect_bounce effect_float effect_jump effect_hop effect_levitate effect_pulse effect_breathe
      effect_heartbeat effect_grow effect_shrink effect_shake effect_wave effect_swing effect_sway effect_wobble
      effect_walk effect_run effect_dance effect_march effect_strut effect_spiral effect_orbit
      effect_fly effect_zigzag effect_pendulum effect_tornado effect_earthquake effect_crazy)

lemma registered_effect_ok: "(k, f) \<in> set animations \<Longrightarrow> effect_ok k f"
  using all_effect_ok by (auto simp add: list_all_iff)

lemma registry_distinct: "distinct (map fst animations)"
  by (simp add: animations_def)

lemma get_registered: "(k, f) \<in> set animations \<Longrightarrow> get animations k = Own f"
  using registry_distinct by (simp add: get_def)

lemma registered_nonempty: "(k, f) \<in> set animations \<Longrightarrow> k \<noteq> []"
  by (auto simp add: animations_def)

lemma inv_refs:
  assumes "animator_inv s" "model s = Some m"
  obtains i where "initialState s = Some i" "distinct (refs m @ refs i)"
  using assms by (auto simp add: animator_inv_def split: option.splits)

lemma anim_no_model:
  "(k, f) \<in> set animations \<Longrightarrow> model s = None \<Longrightarrow> f t rnd s = (Normal, s)"
  using registered_effect_ok[of k f] by (simp add: effect_ok_def)

lemma anim_effect:
  assumes "(k, f) \<in> set animations" "model s = Some m" "initialState s = Some i"
    "distinct (refs m @ refs i)"
  shows "f t rnd s =
    (Normal, s\<lparr>heap := overlay m (written k) (evaluate f t rnd (transform_of i s)) (heap s)\<rparr>)"
proof -
  from registered_effect_ok[OF assms(1)] assms(2-4)
  have "f t rnd s = (Normal, s\<lparr>heap := heap (snd (f t rnd s))\<rparr>)"
    and "heap (snd (f t rnd s)) = overlay m (written k) (evaluate f t rnd (transform_of i s)) (heap s)"
    unfolding effect_ok_def by blast+
  then show ?thesis by simp
qed

lemma overlay_rest:
  assumes "distinct (refs m @ refs i)"
  shows "transform_of i (s\<lparr>heap := overlay m W tr (heap s)\<rparr>) = transform_of i s"
  using noalias[OF assms]
  by (intro ext) (simp add: transform_of_def overlay_def slot_def split: field.splits)

lemma overlay_overlay: "overlay m W tr2 (overlay m W tr1 h) = overlay m W tr2 h"
  by (intro ext) (auto simp add: overlay_def)

lemma overlay_frame:
  assumes "distinct (refs m)" "(fl, ax) \<notin> W"
  shows "overlay m W tr h (slot m fl) ax = h (slot m fl) ax"
  using assms by (cases fl) (auto simp add: overlay_def slot_def refs_def)

lemma overlay_written:
  assumes "distinct (refs m)" "(fl, ax) \<in> W"
  shows "overlay m W tr h (slot m fl) ax = tr fl ax"
  using assms by (cases fl) (auto simp add: overlay_def slot_def refs_def)

lemma at_rest_inv: "animator_inv (at_rest rest)"
  by (simp add: animator_inv_def at_rest_simps refs_def cube_def at_rest_def setModel_def
      saveInitialState_def new_Animator_def Vector3_clone_def Let_def)

subsection \<open>The resolver\<close>

lemmas str_defs = trim_def toLowerCase_def toLowerCase_char_def isWhiteSpace_def

lemmas table_defs = get_def truthy_def animations_def aliases_def Object_prototype_def keys_def

lemma find_in_set: "find P xs = Some x \<Longrightarrow> x \<in> set xs \<and> P x"
  by (induction xs) (auto split: if_splits)

lemma find_filter: "find P xs = (case filter P xs of [] \<Rightarrow> None | x # rest \<Rightarrow> Some x)"
  by (induction xs) auto

lemma truthy_iff:
  "truthy (get obj k) \<longleftrightarrow> k \<in> set (keys obj) \<or> k \<in> set (keys Object_prototype)"
  by (auto simp add: get_def truthy_def keys_def map_of_eq_None_iff[symmetric]
      split: option.splits)

lemma empty_not_property: "get animations [] = Undefined"
  by (simp add: table_defs)

lemma aliases_distinct: "distinct (map fst aliases)"
  by (simp add: aliases_def)

lemma alias_targets_registered:
  "list_all (\<lambda>(alias, animation). animation \<noteq> [] \<and> map_of animations animation \<noteq> None) aliases"
  by (simp add: aliases_def animations_def)

lemma alias_target:
  assumes "(alias, animation) \<in> set aliases"
  shows "animation \<noteq> [] \<and> truthy (get animations animation)"
  using alias_targets_registered assms
  by (auto simp add: list_all_iff get_def truthy_def)

lemma registry_key:
  assumes "k \<in> set (keys animations)"
  shows "k \<noteq> [] \<and> truthy (get animations k)"
proof -
  have "truthy (get animations k)" using assms by (simp add: truthy_iff)
  moreover have "k \<noteq> []" using assms by (auto simp add: keys_def animations_def)
  ultimately show ?thesis by simp
qed

text \<open>Whatever name \<open>parsePrompt\<close> returns passes the test of \<open>setAnimation\<close>.\<close>

lemma parsePrompt_Name:
  assumes "parsePrompt p = Name i"
  shows "i \<noteq> [] \<and> truthy (get animations i)"
proof -
  let ?l = "trim (toLowerCase p)"
  show ?thesis
  proof (cases "truthy (get animations ?l)")
    case True
    then have "i = ?l" using assms by (simp add: parsePrompt_def)
    moreover have "?l \<noteq> []" using True empty_not_property by (auto simp add: truthy_def)
    ultimately show ?thesis using True by simp
  next
    case False
    show ?thesis
    proof (cases "get aliases ?l")
      case (Own a)
      then have "i = a" using assms False by (simp add: parsePrompt_def)
      moreover have "(?l, a) \<in> set aliases"
        using Own by (auto simp add: get_def split: option.splits dest: map_of_SomeD)
      ultimately show ?thesis using alias_target by blast
    next
      case (Inherited b)
      then show ?thesis using assms False by (simp add: parsePrompt_def)
    next
      case Undefined
      show ?thesis
      proof (cases "find (\<lambda>(alias, animation). includes_str ?l alias) aliases")
        case (Some hit)
        obtain al an where hit: "hit = (al, an)" by (cases hit)
        have "i = an" using assms False Undefined Some hit by (simp add: parsePrompt_def)
        moreover have "(al, an) \<in> set aliases" using find_in_set[OF Some] hit by simp
        ultimately show ?thesis using alias_target by blast
      next
        case None
        show ?thesis
        proof (cases "find (\<lambda>animation. includes_str ?l animation) (keys animations)")
          case (Some k)
          then have "i = k" using assms False Undefined None by (simp add: parsePrompt_def)
          then show ?thesis using find_in_set[OF Some] registry_key by blast
        next
          case None2: None
          then show ?thesis using assms False Undefined None by (simp add: parsePrompt_def)
        qed
      qed
    qed
  qed
qed

text \<open>Line 118 is reached only with a key that line 117 did not find, inherited
  properties included, so it never returns a built-in.\<close>

lemma parsePrompt_no_builtin: "parsePrompt p \<noteq> Builtin b"
proof -
  have "get aliases k \<noteq> Inherited b" if "\<not> truthy (get animations k)" for k
    using that by (auto simp add: get_def truthy_def split: option.splits)
  then show ?thesis
    by (auto simp add: parsePrompt_def Let_def split: property.splits option.splits prod.splits)
qed

text \<open>On every input whose normal form is not the name of a property of
  \<open>Object.prototype\<close>, \<open>parsePrompt\<close> is the resolver of the specification.\<close>

lemma parsePrompt_refines_spec:
  assumes "trim (toLowerCase p) \<notin> set (keys Object_prototype)"
  shows "parsePrompt p = (case resolve_spec p of None \<Rightarrow> Null | Some i \<Rightarrow> Name i)"
proof -
  let ?l = "trim (toLowerCase p)"
  have proto: "map_of Object_prototype ?l = None"
    using assms by (simp add: keys_def map_of_eq_None_iff)
  show ?thesis
  proof (cases "?l \<in> set (map fst animations)")
    case True
    then have "truthy (get animations ?l)" by (simp add: truthy_iff keys_def)
    then show ?thesis using True by (simp add: parsePrompt_def resolve_spec_def)
  next
    case nokey: False
    then have f1: "\<not> truthy (get animations ?l)"
      using assms by (simp add: truthy_iff keys_def)
    show ?thesis
    proof (cases "map_of aliases ?l")
      case (Some a)
      then have "?l \<in> set (map fst aliases)"
        by (metis map_of_eq_None_iff option.distinct(1) set_map)
      then show ?thesis using f1 nokey Some
        by (simp add: parsePrompt_def resolve_spec_def get_def)
    next
      case None
      then have "?l \<notin> set (map fst aliases)"
        by (simp add: map_of_eq_None_iff)
      then show ?thesis using f1 nokey None proto
        by (cases "filter (\<lambda>(phrase, target). includes_str ?l phrase) aliases";
            cases "filter (includes_str ?l) (map fst animations)")
          (auto simp add: parsePrompt_def resolve_spec_def get_def find_filter keys_def Let_def)
    qed
  qed
qed

lemma resolver_examples:
  "parsePrompt ''  ROTATE  '' = Name ''rotate''"
  "parsePrompt ''rotate'' = Name ''rotate''"
  "parsePrompt ''spin'' = Name ''spin''"
  "parsePrompt ''please make it dance now'' = Name ''dance''"
  by (simp_all add: parsePrompt_def table_defs str_defs)

text \<open>
  Claim C1. For every input the resolver lower-cases and trims it and returns the first
  match in priority order: exact canonical identifier, exact alias, first alias phrase
  contained in the input, first canonical identifier contained in the input,
  otherwise nothing.

  The registry is a plain object, and \<open>this.animations[lowerPrompt]\<close> also finds what the
  object inherits. The input \<open>constructor\<close> is no canonical identifier, no alias, and
  contains none, so the resolver of the specification returns nothing; \<open>parsePrompt\<close>
  returns the input itself, and so it does for \<open>__proto__\<close>.
\<close>

theorem resolver_inherited_property:
  "parsePrompt ''constructor'' = Name ''constructor'' \<and>
   resolve_spec ''constructor'' = None \<and>
   parsePrompt ''__proto__'' = Name ''__proto__'' \<and>
   resolve_spec ''__proto__'' = None"
  by (simp add: parsePrompt_def resolve_spec_def table_defs str_defs)

subsection \<open>Choosing an animation\<close>

text \<open>
  Claim C4, as amended. For every prompt that \<open>parsePrompt\<close> resolves to a name,
  \<open>setAnimation\<close> returns true, sets \<open>currentAnimation\<close> to that name and resets the
  clock to 0. It changes nothing else: \<open>isPlaying\<close> keeps its value, so a paused or
  stopped animator stays so until \<open>play()\<close>.
\<close>

theorem setAnimation_resolved:
  "parsePrompt p = Name i \<Longrightarrow>
     setAnimation p s = (True, s\<lparr>currentAnimation := Some i, time := 0\<rparr>)"
  using parsePrompt_Name[of p i] by (simp add: setAnimation_def)

theorem setAnimation_resolved_witness:
  "parsePrompt ''dancing'' = Name ''dance'' \<and>
   setAnimation ''dancing'' (pause (at_rest unit_pose)) =
     (True, (pause (at_rest unit_pose))\<lparr>currentAnimation := Some ''dance'', time := 0\<rparr>)"
proof -
  have r: "parsePrompt ''dancing'' = Name ''dance''"
    by (simp add: parsePrompt_def table_defs str_defs)
  show ?thesis using r setAnimation_resolved[OF r] by simp
qed

text \<open>The claim as stated fails on a paused animator: \<open>setAnimation("rotate")\<close> succeeds
  and the animator is still not playing.\<close>

theorem setAnimation_paused_counterexample:
  "parsePrompt ''rotate'' = Name ''rotate'' \<and>
   fst (setAnimation ''rotate'' (pause (at_rest unit_pose))) \<and>
   \<not> isPlaying (snd (setAnimation ''rotate'' (pause (at_rest unit_pose))))"
proof -
  have r: "parsePrompt ''rotate'' = Name ''rotate''"
    by (simp add: parsePrompt_def table_defs str_defs)
  have "setAnimation ''rotate'' s = (True, s\<lparr>currentAnimation := Some ''rotate'', time := 0\<rparr>)" for s
    using parsePrompt_Name[OF r] by (simp add: setAnimation_def r)
  then show ?thesis using r by (simp add: pause_def)
qed

text \<open>
  Claim C6. On every input for which \<open>parsePrompt\<close> finds no match, \<open>setAnimation\<close>
  returns false and leaves the whole state as it was (the current animation, the clock,
  the speed, the playing flag, the model and its transform); no exception is involved.
  \<open>zoop\<close> and the empty string are such inputs.
\<close>

theorem setAnimation_unresolved:
  "(parsePrompt p = Null \<longrightarrow> setAnimation p s = (False, s)) \<and>
   parsePrompt ''zoop'' = Null \<and> parsePrompt [] = Null"
  by (simp add: setAnimation_def) (simp add: parsePrompt_def table_defs str_defs)

theorem setAnimation_unresolved_witness:
  "parsePrompt ''zoop'' = Null \<and>
   setAnimation ''zoop'' (at_rest unit_pose) = (False, at_rest unit_pose)"
  using setAnimation_unresolved[of "''zoop''" "at_rest unit_pose"] by simp

subsection \<open>The invariant and what each call preserves\<close>

lemma new_Animator_inv: "animator_inv (new_Animator h n)"
  by (simp add: animator_inv_def new_Animator_def)

lemma inv_cong:
  "model s' = model s \<Longrightarrow> initialState s' = initialState s \<Longrightarrow> fresh s' = fresh s \<Longrightarrow>
   animator_inv s' = animator_inv s"
  by (simp add: animator_inv_def split: option.splits)

text \<open>What a call of a registered method leaves behind.\<close>

lemma anim_shape:
  assumes kf: "(k, f) \<in> set animations" and inv: "animator_inv s"
  shows "snd (f t rnd s) = s \<or>
    (\<exists>m i tr. model s = Some m \<and> initialState s = Some i \<and> distinct (refs m @ refs i) \<and>
       f t rnd s = (Normal, s\<lparr>heap := overlay m (written k) tr (heap s)\<rparr>))"
proof (cases "model s")
  case None
  then show ?thesis by (simp add: anim_no_model[OF kf])
next
  case (Some m)
  from inv Some obtain i where i: "initialState s = Some i" and d: "distinct (refs m @ refs i)"
    by (rule inv_refs)
  show ?thesis using anim_effect[OF kf Some i d] Some i d by blast
qed

lemma anim_preserves:
  assumes kf: "(k, f) \<in> set animations" and inv: "animator_inv s"
  shows "animator_inv (snd (f t rnd s)) \<and> initialState (snd (f t rnd s)) = initialState s \<and>
         rest_pose (snd (f t rnd s)) = rest_pose s \<and> model (snd (f t rnd s)) = model s \<and>
         currentAnimation (snd (f t rnd s)) = currentAnimation s \<and>
         isPlaying (snd (f t rnd s)) = isPlaying s \<and> time (snd (f t rnd s)) = time s \<and>
         speed (snd (f t rnd s)) = speed s"
proof -
  from anim_shape[OF kf inv, of t rnd] show ?thesis
  proof
    assume "snd (f t rnd s) = s"
    then show ?thesis using inv by simp
  next
    assume "\<exists>m i tr. model s = Some m \<and> initialState s = Some i \<and> distinct (refs m @ refs i) \<and>
       f t rnd s = (Normal, s\<lparr>heap := overlay m (written k) tr (heap s)\<rparr>)"
    then obtain m i tr where mi: "model s = Some m" "initialState s = Some i"
      and d: "distinct (refs m @ refs i)"
      and e: "f t rnd s = (Normal, s\<lparr>heap := overlay m (written k) tr (heap s)\<rparr>)" by blast
    have "animator_inv (s\<lparr>heap := overlay m (written k) tr (heap s)\<rparr>)"
      using inv inv_cong[of "s\<lparr>heap := overlay m (written k) tr (heap s)\<rparr>" s] by simp
    moreover have "rest_pose (s\<lparr>heap := overlay m (written k) tr (heap s)\<rparr>) = rest_pose s"
      using mi by (simp add: rest_pose_def overlay_rest[OF d])
    ultimately show ?thesis by (simp add: e)
  qed
qed

lemma update_noop:
  "model s = None \<or> currentAnimation s = None \<or> \<not> isPlaying s \<Longrightarrow> update dt rnd s = (Normal, s)"
  by (auto simp add: update_def split: option.splits)

lemma update_step:
  assumes "animator_inv s" "model s = Some m" "initialState s = Some i"
    "currentAnimation s = Some k" "(k, f) \<in> set animations" "isPlaying s"
  shows "update dt rnd s =
        (Normal, s\<lparr>time := time s + dt * speed s,
                   heap := overlay m (written k)
                             (evaluate f (time s + dt * speed s) rnd (transform_of i s)) (heap s)\<rparr>)"
proof -
  let ?s1 = "s\<lparr>time := time s + dt * speed s\<rparr>"
  have d: "distinct (refs m @ refs i)"
    using assms(1-3) by (simp add: animator_inv_def)
  have "update dt rnd s = f (time ?s1) rnd ?s1"
    using assms get_registered[OF assms(5)] registered_nonempty[OF assms(5)]
    by (simp add: update_def Let_def)
  also have "\<dots> = (Normal, ?s1\<lparr>heap := overlay m (written k)
      (evaluate f (time ?s1) rnd (transform_of i ?s1)) (heap ?s1)\<rparr>)"
    using assms d by (intro anim_effect) simp_all
  finally show ?thesis
    by (simp add: transform_of_def)
qed

text \<open>\<open>update\<close> in any state: the clock may move, and the heap changes as one registered
  method changes it.\<close>

lemma update_shape:
  assumes inv: "animator_inv s"
  shows "\<exists>t'. snd (update dt rnd s) = s\<lparr>time := t'\<rparr> \<or>
     (\<exists>k f. currentAnimation s = Some k \<and> (k, f) \<in> set animations \<and>
        snd (update dt rnd s) = snd (f t' rnd (s\<lparr>time := t'\<rparr>)))"
proof (cases "model s = None \<or> currentAnimation s = None \<or> \<not> isPlaying s")
  case True
  then have "snd (update dt rnd s) = s\<lparr>time := time s\<rparr>" by (simp add: update_noop)
  then show ?thesis by blast
next
  case False
  then obtain m k where mk: "model s = Some m" "currentAnimation s = Some k" "isPlaying s"
    by auto
  let ?t = "time s + dt * speed s"
  show ?thesis
  proof (cases "get animations k")
    case Undefined
    then have "snd (update dt rnd s) = s\<lparr>time := ?t\<rparr> \<or> snd (update dt rnd s) = s\<lparr>time := time s\<rparr>"
      using mk by (simp add: update_def Let_def)
    then show ?thesis by blast
  next
    case (Own f)
    then have kf: "(k, f) \<in> set animations"
      by (auto simp add: get_def split: option.splits dest: map_of_SomeD)
    have "snd (update dt rnd s) = snd (f ?t rnd (s\<lparr>time := ?t\<rparr>)) \<or> snd (update dt rnd s) = s\<lparr>time := time s\<rparr>"
      using mk Own by (simp add: update_def Let_def)
    then show ?thesis using kf mk by blast
  next
    case (Inherited b)
    then have "snd (update dt rnd s) = s\<lparr>time := ?t\<rparr> \<or> snd (update dt rnd s) = s\<lparr>time := time s\<rparr>"
      using mk by (cases b) (simp_all add: update_def Let_def)
    then show ?thesis by blast
  qed
qed

lemma update_preserves:
  assumes inv: "animator_inv s"
  shows "animator_inv (snd (update dt rnd s)) \<and>
         initialState (snd (update dt rnd s)) = initialState s \<and>
         rest_pose (snd (update dt rnd s)) = rest_pose s \<and>
         model (snd (update dt rnd s)) = model s \<and>
         currentAnimation (snd (update dt rnd s)) = currentAnimation s \<and>
         isPlaying (snd (update dt rnd s)) = isPlaying s \<and>
         speed (snd (update dt rnd s)) = speed s"
proof -
  from update_shape[OF inv, of dt rnd] obtain t' where
    t': "snd (update dt rnd s) = s\<lparr>time := t'\<rparr> \<or>
     (\<exists>k f. currentAnimation s = Some k \<and> (k, f) \<in> set animations \<and>
        snd (update dt rnd s) = snd (f t' rnd (s\<lparr>time := t'\<rparr>)))" by blast
  have inv': "animator_inv (s\<lparr>time := t'\<rparr>)"
    using inv inv_cong[of "s\<lparr>time := t'\<rparr>" s] by simp
  have rp: "rest_pose (s\<lparr>time := t'\<rparr>) = rest_pose s"
    by (simp add: rest_pose_def transform_of_def)
  from t' show ?thesis
  proof
    assume "snd (update dt rnd s) = s\<lparr>time := t'\<rparr>"
    then show ?thesis using inv' rp by simp
  next
    assume "\<exists>k f. currentAnimation s = Some k \<and> (k, f) \<in> set animations \<and>
        snd (update dt rnd s) = snd (f t' rnd (s\<lparr>time := t'\<rparr>))"
    then obtain k f where kf: "(k, f) \<in> set animations"
      and u: "snd (update dt rnd s) = snd (f t' rnd (s\<lparr>time := t'\<rparr>))" by blast
    show ?thesis using anim_preserves[OF kf inv', of t' rnd] rp by (simp add: u)
  qed
qed

lemma stop_with_model:
  assumes "model s = Some m" "initialState s = Some i"
  shows "stop s = s\<lparr>isPlaying := False, currentAnimation := None, time := 0,
            heap := (heap s)(position m := heap s (position i),
                             rotation m := ((heap s)(position m := heap s (position i))) (rotation i),
                             scale m := ((heap s)(position m := heap s (position i),
                                rotation m := ((heap s)(position m := heap s (position i))) (rotation i))) (scale i))\<rparr>"
  using assms by (simp add: stop_def resetToInitialState_def Vector3_copy_def Let_def)

lemma stop_with_model_inv:
  assumes "animator_inv s" "model s = Some m" "initialState s = Some i"
  shows "transform_of m (stop s) = transform_of i s" "time (stop s) = 0"
    "currentAnimation (stop s) = None" "\<not> isPlaying (stop s)"
    "transform_of i (stop s) = transform_of i s"
proof -
  have d: "distinct (refs m @ refs i)" using assms by (simp add: animator_inv_def)
  show "transform_of m (stop s) = transform_of i s"
    using noalias[OF d]
    by (intro ext) (simp add: stop_with_model[OF assms(2,3)] transform_of_def slot_def split: field.splits)
  show "transform_of i (stop s) = transform_of i s"
    using noalias[OF d]
    by (intro ext) (simp add: stop_with_model[OF assms(2,3)] transform_of_def slot_def split: field.splits)
qed (simp_all add: stop_with_model[OF assms(2,3)])

lemma stop_without_model:
  assumes "model s = None \<or> initialState s = None"
  shows "stop s = s\<lparr>isPlaying := False, currentAnimation := None\<rparr>"
  using assms by (auto simp add: stop_def resetToInitialState_def split: option.splits)

lemma stop_preserves:
  assumes inv: "animator_inv s"
  shows "animator_inv (stop s) \<and> initialState (stop s) = initialState s \<and>
         rest_pose (stop s) = rest_pose s"
proof (cases "model s")
  case None
  then show ?thesis
    using inv inv_cong[of "stop s" s]
    by (simp add: stop_without_model animator_inv_def rest_pose_def transform_of_def)
next
  case (Some m)
  from inv Some obtain i where i: "initialState s = Some i" and d: "distinct (refs m @ refs i)"
    by (rule inv_refs)
  have "animator_inv (stop s)"
    using inv inv_cong[of "stop s" s] by (simp add: stop_with_model[OF Some i])
  moreover have "initialState (stop s) = initialState s" by (simp add: stop_with_model[OF Some i])
  moreover have "rest_pose (stop s) = rest_pose s"
    using stop_with_model_inv(5)[OF inv Some i] i by (simp add: rest_pose_def stop_with_model[OF Some i])
  ultimately show ?thesis by simp
qed

lemma step_preserves:
  assumes inv: "animator_inv s" and c: "\<not> attaches c"
  shows "animator_inv (step c s) \<and> initialState (step c s) = initialState s \<and>
         rest_pose (step c s) = rest_pose s"
proof (cases c)
  case (SetModel m)
  then have "m = None" using c by (cases m) simp_all
  then show ?thesis using SetModel
    by (simp add: setModel_def saveInitialState_def animator_inv_def rest_pose_def transform_of_def)
next
  case (SetAnimation p)
  then show ?thesis using inv
    by (cases "parsePrompt p")
      (simp_all add: setAnimation_def animator_inv_def rest_pose_def transform_of_def
        split: option.splits)
next
  case (SetSpeed v)
  then show ?thesis using inv
    by (simp add: setSpeed_def animator_inv_def rest_pose_def transform_of_def split: option.splits)
next
  case Play
  then show ?thesis using inv
    by (simp add: play_def animator_inv_def rest_pose_def transform_of_def split: option.splits)
next
  case Pause
  then show ?thesis using inv
    by (simp add: pause_def animator_inv_def rest_pose_def transform_of_def split: option.splits)
next
  case Stop
  then show ?thesis using stop_preserves[OF inv] by simp
next
  case (Update dt rnd)
  then show ?thesis using update_preserves[OF inv, of dt rnd] by simp
next
  case (Animate k t rnd)
  show ?thesis
  proof (cases "map_of animations k")
    case None
    then show ?thesis using Animate inv by simp
  next
    case (Some f)
    then have "(k, f) \<in> set animations" by (rule map_of_SomeD)
    then show ?thesis using Animate Some anim_preserves[OF _ inv, of k f t rnd] by simp
  qed
qed

lemma run_preserves:
  assumes "animator_inv s" "list_all (\<lambda>c. \<not> attaches c) cs"
  shows "animator_inv (run cs s) \<and> initialState (run cs s) = initialState s \<and>
         rest_pose (run cs s) = rest_pose s"
  using assms
proof (induction cs arbitrary: s)
  case Nil
  then show ?case by simp
next
  case (Cons c cs)
  from Cons.prems have c: "\<not> attaches c" and cs: "list_all (\<lambda>c. \<not> attaches c) cs" by simp_all
  from step_preserves[OF Cons.prems(1) c] Cons.IH[OF _ cs, of "step c s"]
  show ?case by simp
qed

lemma setModel_captures:
  assumes "host_object m s"
  shows "animator_inv (setModel (Some m) s)"
    "rest_pose (setModel (Some m) s) = Some (transform_of m s)"
    "transform_of m (setModel (Some m) s) = transform_of m s"
    "model (setModel (Some m) s) = Some m"
    "initialState (setModel (Some m) s) =
       Some \<lparr>position = fresh s, rotation = Suc (fresh s), scale = Suc (Suc (fresh s))\<rparr>"
proof -
  have b: "position m < fresh s" "rotation m < fresh s" "scale m < fresh s"
    and d: "distinct (refs m)"
    using assms by (simp_all add: host_object_def refs_def)
  show "animator_inv (setModel (Some m) s)"
    using b d by (simp add: setModel_def saveInitialState_def Vector3_clone_def Let_def
        animator_inv_def refs_def)
  show "rest_pose (setModel (Some m) s) = Some (transform_of m s)"
    using b by (auto simp add: setModel_def saveInitialState_def Vector3_clone_def Let_def
        rest_pose_def transform_of_def slot_def fun_eq_iff split: field.splits)
  show "transform_of m (setModel (Some m) s) = transform_of m s"
    using b by (auto simp add: setModel_def saveInitialState_def Vector3_clone_def Let_def
        transform_of_def slot_def fun_eq_iff split: field.splits)
qed (simp_all add: setModel_def saveInitialState_def Vector3_clone_def Let_def)

lemma setAnimation_name:
  assumes "parsePrompt p = Name k"
  shows "snd (setAnimation p s) = s\<lparr>currentAnimation := Some k, time := 0\<rparr>"
  using parsePrompt_Name[OF assms] assms by (simp add: setAnimation_def)

subsection \<open>The sample states\<close>

lemma bouncing_eq:
  "bouncing = (at_rest unit_pose)\<lparr>currentAnimation := Some ''bounce'', time := 0\<rparr>"
proof -
  have r: "parsePrompt ''bounce'' = Name ''bounce''"
    by (simp add: parsePrompt_def table_defs str_defs)
  show ?thesis using parsePrompt_Name[OF r] by (simp add: bouncing_def setAnimation_def r)
qed

lemma at_rest_fields:
  "isPlaying (at_rest rest)" "speed (at_rest rest) = 1" "time (at_rest rest) = 0"
  "currentAnimation (at_rest rest) = None" "fresh (at_rest rest) = 6"
  by (simp_all add: at_rest_def setModel_def saveInitialState_def new_Animator_def
      Vector3_clone_def Let_def cube_def)

lemma bounce_registered: "(''bounce'', animateBounce) \<in> set animations"
  by (simp add: animations_def)

lemma bouncing_inv: "animator_inv bouncing"
  using at_rest_inv[of unit_pose] by (simp add: bouncing_eq animator_inv_def at_rest_simps)

lemma at_rest_transform:
  "transform_of cube (at_rest rest) = rest"
  "transform_of \<lparr>position = 3, rotation = 4, scale = 5\<rparr> (at_rest rest) = rest"
proof -
  have 1: "heap (at_rest rest) (Suc 0) = rest Rotation"
    using at_rest_simps(4)[of rest] by simp
  show "transform_of cube (at_rest rest) = rest"
    by (intro ext) (simp add: transform_of_def slot_def cube_def at_rest_simps 1 split: field.splits)
  show "transform_of \<lparr>position = 3, rotation = 4, scale = 5\<rparr> (at_rest rest) = rest"
    by (intro ext) (simp add: transform_of_def slot_def at_rest_simps split: field.splits)
qed

lemma after_bounce_eq:
  "after_bounce = bouncing\<lparr>time := 1, heap := overlay cube (written ''bounce'')
      (evaluate animateBounce 1 no_jitter unit_pose) (heap bouncing)\<rparr>"
proof -
  have h: "model bouncing = Some cube"
      "initialState bouncing = Some \<lparr>position = 3, rotation = 4, scale = 5\<rparr>"
      "currentAnimation bouncing = Some ''bounce''" "isPlaying bouncing"
      "time bouncing = 0" "speed bouncing = 1"
    by (simp_all add: bouncing_eq at_rest_simps at_rest_fields)
  have tr: "transform_of \<lparr>position = 3, rotation = 4, scale = 5\<rparr> bouncing = unit_pose"
    using at_rest_transform(2)[of unit_pose] by (simp add: bouncing_eq transform_of_def)
  show ?thesis
    using update_step[OF bouncing_inv h(1,2,3) bounce_registered h(4), of 1 no_jitter] h(5,6)
    by (simp add: after_bounce_def tr)
qed

lemma removed_eq:
  "removed = (at_rest unit_pose)\<lparr>currentAnimation := Some ''rotate'', time := 1, model := None,
      heap := overlay cube (written ''rotate'')
        (evaluate animateRotate 1 no_jitter unit_pose) (heap (at_rest unit_pose))\<rparr>"
proof -
  have r: "parsePrompt ''rotate'' = Name ''rotate''"
    by (simp add: parsePrompt_def table_defs str_defs)
  let ?s = "(at_rest unit_pose)\<lparr>currentAnimation := Some ''rotate'', time := 0\<rparr>"
  have inv: "animator_inv ?s"
    using at_rest_inv[of unit_pose] inv_cong[of ?s "at_rest unit_pose"] by simp
  have reg: "(''rotate'', animateRotate) \<in> set animations" by (simp add: animations_def)
  have tr: "transform_of \<lparr>position = 3, rotation = 4, scale = 5\<rparr> ?s = unit_pose"
    using at_rest_transform(2)[of unit_pose] by (simp add: transform_of_def)
  have u: "update 1 no_jitter ?s = (Normal, ?s\<lparr>time := 1, heap := overlay cube (written ''rotate'')
        (evaluate animateRotate 1 no_jitter unit_pose) (heap ?s)\<rparr>)"
    using update_step[OF inv _ _ _ reg, of cube "\<lparr>position = 3, rotation = 4, scale = 5\<rparr>" 1 no_jitter]
    by (simp add: at_rest_simps at_rest_fields tr)
  show ?thesis
    by (simp add: removed_def setAnimation_name[OF r] u setModel_def saveInitialState_def)
qed

lemma named_constructor_eq:
  "named_constructor = (at_rest unit_pose)\<lparr>currentAnimation := Some ''constructor'', time := 0\<rparr>"
proof -
  have r: "parsePrompt ''constructor'' = Name ''constructor''"
    by (simp add: parsePrompt_def table_defs str_defs)
  show ?thesis by (simp add: named_constructor_def setAnimation_name[OF r])
qed

lemma named_proto_eq:
  "named_proto = (at_rest unit_pose)\<lparr>currentAnimation := Some ''__proto__'', time := 0\<rparr>"
proof -
  have r: "parsePrompt ''__proto__'' = Name ''__proto__''"
    by (simp add: parsePrompt_def table_defs str_defs)
  show ?thesis by (simp add: named_proto_def setAnimation_name[OF r])
qed

lemma after_rotate_eq:
  "after_rotate = (at_rest unit_pose)\<lparr>currentAnimation := Some ''rotate'', time := 1,
      heap := overlay cube (written ''rotate'')
        (evaluate animateRotate 1 no_jitter unit_pose) (heap (at_rest unit_pose))\<rparr>"
proof -
  have r: "parsePrompt ''rotate'' = Name ''rotate''"
    by (simp add: parsePrompt_def table_defs str_defs)
  let ?s = "(at_rest unit_pose)\<lparr>currentAnimation := Some ''rotate'', time := 0\<rparr>"
  have inv: "animator_inv ?s"
    using at_rest_inv[of unit_pose] inv_cong[of ?s "at_rest unit_pose"] by simp
  have reg: "(''rotate'', animateRotate) \<in> set animations" by (simp add: animations_def)
  have tr: "transform_of \<lparr>position = 3, rotation = 4, scale = 5\<rparr> ?s = unit_pose"
    using at_rest_transform(2)[of unit_pose] by (simp add: transform_of_def)
  have u: "update 1 no_jitter ?s = (Normal, ?s\<lparr>time := 1, heap := overlay cube (written ''rotate'')
        (evaluate animateRotate 1 no_jitter unit_pose) (heap ?s)\<rparr>)"
    using update_step[OF inv _ _ _ reg, of cube "\<lparr>position = 3, rotation = 4, scale = 5\<rparr>" 1 no_jitter]
    by (simp add: at_rest_simps at_rest_fields tr)
  show ?thesis
    by (simp add: after_rotate_def setAnimation_name[OF r] u)
qed

lemma after_rotate_inv: "animator_inv after_rotate"
  using at_rest_inv[of unit_pose] inv_cong[of after_rotate "at_rest unit_pose"]
  by (simp add: after_rotate_eq)

text \<open>Three rows of the specification's table, read off \<open>evaluate\<close>.\<close>

lemma evaluate_examples:
  "evaluate animateRotate t rnd rest Rotation Y = rest Rotation Y + t"
  "evaluate animateBounce t rnd rest Position Y = rest Position Y + \<bar>sin (t * 4)\<bar> * 0.5"
  "evaluate animatePulse t rnd rest Scale ax = rest Scale X * (1 + sin (t * 4) * 0.15)"
  by (simp_all add: evaluate_def animateRotate_def animateBounce_def animatePulse_def eff_simps)

subsection \<open>The clock\<close>

lemma run_ticks_paused: "\<not> isPlaying s \<Longrightarrow> run (ticks ds) s = s"
  by (induction ds) (auto simp add: ticks_def update_noop)

text \<open>
  Claim C8. Time never advances while paused: any run of \<open>update\<close> calls between
  \<open>pause()\<close> and the next \<open>play()\<close> leaves the state, the clock included, as \<open>pause()\<close>
  left it, so after \<open>play()\<close> the animator is where \<open>play()\<close> alone would have put it and
  the clock reads what it read before \<open>pause()\<close>; \<open>play\<close> and \<open>pause\<close> do not touch the
  clock.
\<close>

theorem paused_time_frozen:
  "run (ticks ds) (pause s) = pause s \<and>
   play (run (ticks ds) (pause s)) = play s \<and>
   time (play (run (ticks ds) (pause s))) = time s \<and>
   time (play s) = time s \<and> time (pause s) = time s"
proof -
  have "run (ticks ds) (pause s) = pause s"
    by (rule run_ticks_paused) (simp add: pause_def)
  then show ?thesis by (simp add: pause_def play_def)
qed

text \<open>With a model attached, a registered animation \<open>k\<close> current and the flag on,
  \<open>update(dt)\<close> advances the clock by exactly \<open>dt * speed\<close> and recomputes the model's
  transform from the rest pose at the new time: the components \<open>written k\<close> become those
  of \<open>evaluate\<close> at the new time on the saved pose, and nothing else changes. With no
  model, no current animation, or the flag off, \<open>update(dt)\<close> changes nothing.\<close>

lemma update_registered:
  "(animator_inv s \<longrightarrow> model s = Some m \<longrightarrow> initialState s = Some i \<longrightarrow>
      currentAnimation s = Some k \<longrightarrow> (k, f) \<in> set animations \<longrightarrow> isPlaying s \<longrightarrow>
      update dt rnd s =
        (Normal, s\<lparr>time := time s + dt * speed s,
                   heap := overlay m (written k)
                             (evaluate f (time s + dt * speed s) rnd (transform_of i s)) (heap s)\<rparr>)) \<and>
   (model s = None \<or> currentAnimation s = None \<or> \<not> isPlaying s \<longrightarrow>
      update dt rnd s = (Normal, s))"
  using update_step[of s m i k f dt rnd] update_noop[of s dt rnd] by blast

lemma update_registered_example:
  "animator_inv bouncing \<and> model bouncing = Some cube \<and>
   currentAnimation bouncing = Some ''bounce'' \<and> isPlaying bouncing \<and>
   (''bounce'', animateBounce) \<in> set animations \<and>
   fst (update 2 no_jitter bouncing) = Normal \<and>
   time (snd (update 2 no_jitter bouncing)) = 2 \<and>
   heap (snd (update 2 no_jitter bouncing)) (position cube) Y = \<bar>sin 8\<bar> / 2 \<and>
   update 2 no_jitter (pause bouncing) = (Normal, pause bouncing)"
proof -
  have h: "model bouncing = Some cube"
      "initialState bouncing = Some \<lparr>position = 3, rotation = 4, scale = 5\<rparr>"
      "currentAnimation bouncing = Some ''bounce''" "isPlaying bouncing"
      "time bouncing = 0" "speed bouncing = 1"
    by (simp_all add: bouncing_eq at_rest_simps at_rest_fields)
  have ev: "evaluate animateBounce 2 no_jitter tr Position Y = tr Position Y + \<bar>sin 8\<bar> / 2" for tr
    by (simp add: evaluate_def animateBounce_def eff_simps)
  have 1: "update 2 no_jitter bouncing =
      (Normal, bouncing\<lparr>time := 2, heap := overlay cube (written ''bounce'')
         (evaluate animateBounce 2 no_jitter
            (transform_of \<lparr>position = 3, rotation = 4, scale = 5\<rparr> bouncing)) (heap bouncing)\<rparr>)"
    using update_registered[of bouncing cube "\<lparr>position = 3, rotation = 4, scale = 5\<rparr>" "''bounce''"
        animateBounce 2 no_jitter] bouncing_inv bounce_registered h
    by simp
  have 2: "update 2 no_jitter (pause bouncing) = (Normal, pause bouncing)"
    using update_registered[of "pause bouncing" cube "\<lparr>position = 3, rotation = 4, scale = 5\<rparr>"
        "''bounce''" animateBounce 2 no_jitter]
    by (simp add: pause_def)
  show ?thesis
    using bouncing_inv bounce_registered h
    by (simp add: 1 2 overlay_def written_simps cube_def ev)
      (simp add: transform_of_def slot_def bouncing_eq at_rest_simps unit_pose_def)
qed

text \<open>The remaining states: a model, the flag on, and a current name that is not a key
  of the registry. The clock advances and no method runs; what the name finds on
  \<open>Object.prototype\<close> decides between a normal return and a TypeError.\<close>

lemma update_unregistered:
  assumes "model s = Some m" "currentAnimation s = Some k" "k \<noteq> []" "isPlaying s"
    "map_of animations k = None"
  shows "update dt rnd s =
     (case map_of Object_prototype k of
        None \<Rightarrow> Normal
      | Some Returns \<Rightarrow> Normal
      | Some Throws \<Rightarrow> TypeError
      | Some Not_callable \<Rightarrow> TypeError,
      s\<lparr>time := time s + dt * speed s\<rparr>)"
  using assms
  by (simp add: update_def get_def Let_def split: option.splits builtin.splits)

text \<open>
  Claim C2. For every call \<open>update(dt)\<close>: with a model attached, a current animation
  set and the flag on, the clock advances by \<open>dt * speed\<close> and the model's transform is
  recomputed from the rest pose at the new time; otherwise the call changes nothing.

  \<open>setAnimation("constructor")\<close> and \<open>setAnimation("__proto__")\<close> succeed (the
  inherited properties of the registry object, as in claim C1) and leave a state with a
  model, a current animation and the flag on. There \<open>update(1)\<close> advances the clock and
  recomputes nothing: with \<open>constructor\<close> it returns with only the clock changed, with
  \<open>__proto__\<close> it throws a TypeError after advancing the clock.
\<close>

theorem update_inherited_name:
  "fst (setAnimation ''constructor'' (at_rest unit_pose)) \<and>
   model named_constructor = Some cube \<and>
   currentAnimation named_constructor = Some ''constructor'' \<and>
   isPlaying named_constructor \<and>
   update 1 no_jitter named_constructor = (Normal, named_constructor\<lparr>time := 1\<rparr>) \<and>
   fst (setAnimation ''__proto__'' (at_rest unit_pose)) \<and>
   model named_proto = Some cube \<and>
   currentAnimation named_proto = Some ''__proto__'' \<and>
   isPlaying named_proto \<and>
   update 1 no_jitter named_proto = (TypeError, named_proto\<lparr>time := 1\<rparr>)"
proof -
  have c: "parsePrompt ''constructor'' = Name ''constructor''"
    and p: "parsePrompt ''__proto__'' = Name ''__proto__''"
    by (simp_all add: parsePrompt_def table_defs str_defs)
  have s: "fst (setAnimation ''constructor'' (at_rest unit_pose))"
    "fst (setAnimation ''__proto__'' (at_rest unit_pose))"
    using parsePrompt_Name[OF c] parsePrompt_Name[OF p] by (simp_all add: setAnimation_def c p)
  have uc: "update 1 no_jitter named_constructor = (Normal, named_constructor\<lparr>time := 1\<rparr>)"
    using update_unregistered[of named_constructor cube "''constructor''" 1 no_jitter]
    by (simp add: named_constructor_eq at_rest_simps at_rest_fields animations_def Object_prototype_def)
  have up: "update 1 no_jitter named_proto = (TypeError, named_proto\<lparr>time := 1\<rparr>)"
    using update_unregistered[of named_proto cube "''__proto__''" 1 no_jitter]
    by (simp add: named_proto_eq at_rest_simps at_rest_fields animations_def Object_prototype_def)
  show ?thesis
    using s uc up
    by (simp add: named_constructor_eq named_proto_eq at_rest_simps at_rest_fields)
qed

subsection \<open>Evaluation is a function of the time and the rest pose\<close>

lemma independent_of_random:
  "list_all (\<lambda>(k, f). k \<noteq> ''earthquake'' \<longrightarrow> (\<forall>t rnd rnd'. f t rnd = f t rnd')) animations"
  unfolding animations_def
  by (simp add: animateRotate_def animateSpin_def animateRoll_def animateFlip_def
  animateBounce_def animateFloat_def animateJump_def animateHop_def animateLevitate_def
  animatePulse_def animateBreathe_def animateHeartbeat_def animateGrow_def animateShrink_def
  animateShake_def animateWave_def animateSwing_def animateSway_def animateWobble_def
  animateWalk_def animateRun_def animateDance_def animateMarch_def animateStrut_def
  animateSpiral_def animateOrbit_def animateFly_def animateZigzag_def animatePendulum_def
  animateTornado_def animateCrazy_def)

lemma no_random:
  assumes "(k, f) \<in> set animations" "k \<noteq> ''earthquake''"
  shows "f t rnd = f t rnd'"
  using independent_of_random assms by (auto simp add: list_all_iff)

lemma evaluation_repeatable:
  assumes kf: "(k, f) \<in> set animations" and inv: "animator_inv s"
  shows "f t rnd (snd (f t' rnd' s)) = f t rnd s"
proof (cases "model s")
  case None
  then show ?thesis by (simp add: anim_no_model[OF kf])
next
  case (Some m)
  from inv Some obtain i where i: "initialState s = Some i" and d: "distinct (refs m @ refs i)"
    by (rule inv_refs)
  let ?s1 = "s\<lparr>heap := overlay m (written k) (evaluate f t' rnd' (transform_of i s)) (heap s)\<rparr>"
  have 1: "f t' rnd' s = (Normal, ?s1)"
    by (rule anim_effect[OF kf Some i d])
  have "f t rnd ?s1 = (Normal, ?s1\<lparr>heap := overlay m (written k)
          (evaluate f t rnd (transform_of i ?s1)) (heap ?s1)\<rparr>)"
    using Some i d by (intro anim_effect[OF kf]) simp_all
  also have "\<dots> = (Normal, s\<lparr>heap := overlay m (written k)
          (evaluate f t rnd (transform_of i s)) (heap s)\<rparr>)"
    by (simp add: overlay_rest[OF d] overlay_overlay)
  also have "\<dots> = f t rnd s"
    by (rule anim_effect[OF kf Some i d, symmetric])
  finally show ?thesis by (simp add: 1)
qed

lemma written_from_rest:
  assumes kf: "(k, f) \<in> set animations" and inv: "animator_inv s"
    and m: "model s = Some m" and i: "initialState s = Some i" and w: "(fl, ax) \<in> written k"
  shows "transform_of m (snd (f t rnd s)) fl ax = evaluate f t rnd (transform_of i s) fl ax"
proof -
  have d: "distinct (refs m @ refs i)" using inv m i by (simp add: animator_inv_def)
  then have dm: "distinct (refs m)" by simp
  show ?thesis
    by (simp add: anim_effect[OF kf m i d] transform_of_def overlay_written[OF dm w])
qed

lemma unwritten_kept:
  assumes kf: "(k, f) \<in> set animations" and inv: "animator_inv s"
    and m: "model s = Some m" and w: "(fl, ax) \<notin> written k"
  shows "transform_of m (snd (f t rnd s)) fl ax = transform_of m s fl ax"
proof -
  from inv m obtain i where i: "initialState s = Some i" and d: "distinct (refs m @ refs i)"
    by (rule inv_refs)
  from d have dm: "distinct (refs m)" by simp
  show ?thesis
    by (simp add: anim_effect[OF kf m i d] transform_of_def overlay_frame[OF dm w])
qed

lemma earthquake_jitter:
  "heap (snd (animateEarthquake t low_jitter (at_rest rest))) 0 X \<noteq>
   heap (snd (animateEarthquake t no_jitter (at_rest rest))) 0 X"
  by (simp add: animateEarthquake_def prim_defs at_rest_simps cube_def low_jitter_def no_jitter_def)

text \<open>
  Claim C3, as amended. For every registered animation except \<open>earthquake\<close>, at every
  time and in every state: the method does not depend on the random source; calling it
  at \<open>t\<close> after a previous frame of the same animation (at any time \<open>t'\<close>, in
  particular at \<open>t\<close> itself) gives the completion and the state that calling it at \<open>t\<close>
  alone gives; every component it writes is \<open>evaluate\<close> of \<open>t\<close> and the saved rest
  pose, whatever the model's transform was before; and every component it does not
  write keeps the value it had before the call. \<open>earthquake\<close> is the exception: two
  random sources give two different results.
\<close>

theorem evaluation_deterministic:
  "(k, f) \<in> set animations \<longrightarrow>
     (k \<noteq> ''earthquake'' \<longrightarrow>
        f t rnd s = f t rnd' s \<and>
        (animator_inv s \<longrightarrow> f t rnd (snd (f t' rnd' s)) = f t rnd s) \<and>
        (animator_inv s \<longrightarrow> model s = Some m \<longrightarrow> initialState s = Some i \<longrightarrow>
           (fl, ax) \<in> written k \<longrightarrow>
           transform_of m (snd (f t rnd s)) fl ax = evaluate f t rnd' (transform_of i s) fl ax) \<and>
        (animator_inv s \<longrightarrow> model s = Some m \<longrightarrow> (fl, ax) \<notin> written k \<longrightarrow>
           transform_of m (snd (f t rnd s)) fl ax = transform_of m s fl ax)) \<and>
     (k = ''earthquake'' \<longrightarrow>
        f t low_jitter (at_rest rest) \<noteq> f t no_jitter (at_rest rest))"
proof (intro impI conjI)
  assume kf: "(k, f) \<in> set animations"
  {
    assume "k \<noteq> ''earthquake''"
    then show "f t rnd s = f t rnd' s"
      using no_random[OF kf, of t rnd rnd'] by simp
  }
  {
    assume "k \<noteq> ''earthquake''" "animator_inv s"
    then show "f t rnd (snd (f t' rnd' s)) = f t rnd s"
      using evaluation_repeatable[OF kf, of s t rnd t' rnd'] by simp
  }
  {
    assume ne: "k \<noteq> ''earthquake''" and a: "animator_inv s" "model s = Some m"
      "initialState s = Some i" "(fl, ax) \<in> written k"
    have "evaluate f t rnd' tr = evaluate f t rnd tr" for tr
      using no_random[OF kf ne, of t rnd' rnd] by (simp add: evaluate_def)
    then show "transform_of m (snd (f t rnd s)) fl ax = evaluate f t rnd' (transform_of i s) fl ax"
      using written_from_rest[OF kf a, of t rnd] by simp
  }
  {
    assume "animator_inv s" "model s = Some m" "(fl, ax) \<notin> written k"
    then show "transform_of m (snd (f t rnd s)) fl ax = transform_of m s fl ax"
      by (rule unwritten_kept[OF kf])
  }
  {
    assume "k = ''earthquake''"
    then have "f = animateEarthquake"
      using kf get_registered[OF kf] by (simp add: get_def animations_def)
    then show "f t low_jitter (at_rest rest) \<noteq> f t no_jitter (at_rest rest)"
      using earthquake_jitter[of t rest] by auto
  }
qed

theorem evaluation_deterministic_witness:
  "(''pulse'', animatePulse) \<in> set animations \<and> ''pulse'' \<noteq> ''earthquake'' \<and>
   animator_inv (at_rest stretched_pose) \<and>
   animatePulse 2 low_jitter (snd (animatePulse 1 no_jitter (at_rest stretched_pose))) =
     animatePulse 2 low_jitter (at_rest stretched_pose) \<and>
   animatePulse 2 low_jitter (at_rest stretched_pose) =
     animatePulse 2 no_jitter (at_rest stretched_pose) \<and>
   (''earthquake'', animateEarthquake) \<in> set animations \<and>
   animateEarthquake 2 low_jitter (at_rest stretched_pose) \<noteq>
     animateEarthquake 2 no_jitter (at_rest stretched_pose)"
proof -
  have p: "(''pulse'', animatePulse) \<in> set animations" "''pulse'' \<noteq> ''earthquake''"
    and e: "(''earthquake'', animateEarthquake) \<in> set animations"
    by (simp_all add: animations_def)
  show ?thesis
    using p e at_rest_inv[of stretched_pose]
      evaluation_deterministic[of "''pulse''" animatePulse 2 low_jitter "at_rest stretched_pose"
        no_jitter 1 cube "\<lparr>position = 3, rotation = 4, scale = 5\<rparr>" Scale X stretched_pose]
      evaluation_deterministic[of "''earthquake''" animateEarthquake 2 low_jitter
        "at_rest stretched_pose" no_jitter 1 cube "\<lparr>position = 3, rotation = 4, scale = 5\<rparr>"
        Scale X stretched_pose]
    by simp
qed

text \<open>The claim as stated fails for the components an animation does not write: with
  the same rest pose and the same \<open>t = 2\<close>, \<open>pulse\<close> leaves \<open>rotation.y = 1\<close> on a model
  that \<open>rotate\<close> has turned, and \<open>rotation.y = 0\<close> on a model at rest.\<close>

theorem pulse_after_rotate_counterexample:
  "model after_rotate = Some cube \<and> model (at_rest unit_pose) = Some cube \<and>
   rest_pose after_rotate = Some unit_pose \<and> rest_pose (at_rest unit_pose) = Some unit_pose \<and>
   transform_of cube (snd (animatePulse 2 no_jitter after_rotate)) Rotation Y = 1 \<and>
   transform_of cube (snd (animatePulse 2 no_jitter (at_rest unit_pose))) Rotation Y = 0"
proof -
  have m: "model after_rotate = Some cube" "model (at_rest unit_pose) = Some cube"
    by (simp_all add: after_rotate_eq at_rest_simps)
  have w: "(Rotation, Y) \<notin> written ''pulse''" by (simp add: written_simps)
  have pulse_registered: "(''pulse'', animatePulse) \<in> set animations"
    by (simp add: animations_def)
  have rp0: "rest_pose (at_rest unit_pose) = Some unit_pose"
    by (simp add: rest_pose_def at_rest_simps at_rest_transform)
  have rp1: "rest_pose after_rotate = Some unit_pose"
    using at_rest_transform(2)[of unit_pose]
    by (simp add: rest_pose_def after_rotate_eq at_rest_simps transform_of_def
        overlay_def slot_def cube_def fun_eq_iff split: field.splits)
  have a: "transform_of cube (snd (animatePulse 2 no_jitter after_rotate)) Rotation Y =
      transform_of cube after_rotate Rotation Y"
    by (rule unwritten_kept[OF pulse_registered after_rotate_inv m(1) w])
  have b: "transform_of cube (snd (animatePulse 2 no_jitter (at_rest unit_pose))) Rotation Y =
      transform_of cube (at_rest unit_pose) Rotation Y"
    by (rule unwritten_kept[OF pulse_registered at_rest_inv m(2) w])
  have c: "transform_of cube after_rotate Rotation Y = 1"
    by (simp add: after_rotate_eq transform_of_def slot_def overlay_def written_simps cube_def
        evaluate_def animateRotate_def prim_defs at_rest_simps unit_pose_def)
  have d: "transform_of cube (at_rest unit_pose) Rotation Y = 0"
    by (simp add: at_rest_transform unit_pose_def)
  show ?thesis using m rp0 rp1 by (simp add: a b c d)
qed

subsection \<open>Components an animation does not write\<close>

lemma pulse_registered: "(''pulse'', animatePulse) \<in> set animations"
  by (simp add: animations_def)

lemma pulse_at_zero:
  "evaluate animatePulse 0 rnd rest Scale ax = rest Scale X"
  by (simp add: evaluate_def animatePulse_def eff_simps)

text \<open>
  Claim C7, as amended. For every registered animation, evaluating it at \<open>t = 0\<close> on a
  model that is at its rest pose leaves every component the animation does not write
  equal to the rest pose. \<open>pulse\<close> at \<open>t = 0\<close> leaves position and rotation unchanged and
  sets each axis of the scale to the x scale of the rest pose, which is the rest scale
  when the rest scale is the same on the three axes.
\<close>

theorem rest_components_untouched:
  "animator_inv s \<longrightarrow> model s = Some m \<longrightarrow> initialState s = Some i \<longrightarrow>
   transform_of m s = transform_of i s \<longrightarrow>
     ((k, f) \<in> set animations \<longrightarrow> (fl, ax) \<notin> written k \<longrightarrow>
        transform_of m (snd (f 0 rnd s)) fl ax = transform_of i s fl ax) \<and>
     transform_of m (snd (animatePulse 0 rnd s)) Position = transform_of i s Position \<and>
     transform_of m (snd (animatePulse 0 rnd s)) Rotation = transform_of i s Rotation \<and>
     transform_of m (snd (animatePulse 0 rnd s)) Scale ax = transform_of i s Scale X \<and>
     (transform_of i s Scale Y = transform_of i s Scale X \<longrightarrow>
      transform_of i s Scale Z = transform_of i s Scale X \<longrightarrow>
        transform_of m (snd (animatePulse 0 rnd s)) = transform_of i s)"
proof (intro impI)
  assume inv: "animator_inv s" and m: "model s = Some m" and i: "initialState s = Some i"
    and rest: "transform_of m s = transform_of i s"
  have unw: "transform_of m (snd (animatePulse 0 rnd s)) fl' ax' = transform_of i s fl' ax'"
    if "fl' \<noteq> Scale" for fl' ax'
    using unwritten_kept[OF pulse_registered inv m, of fl' ax' 0 rnd] that rest
    by (simp add: written_simps)
  have sc: "transform_of m (snd (animatePulse 0 rnd s)) Scale ax' = transform_of i s Scale X" for ax'
    using written_from_rest[OF pulse_registered inv m i, of Scale ax' 0 rnd]
    by (cases ax') (simp_all add: written_simps pulse_at_zero)
  have uniform: "transform_of m (snd (animatePulse 0 rnd s)) = transform_of i s"
    if "transform_of i s Scale Y = transform_of i s Scale X"
      "transform_of i s Scale Z = transform_of i s Scale X"
  proof (intro ext)
    fix fl' ax'
    show "transform_of m (snd (animatePulse 0 rnd s)) fl' ax' = transform_of i s fl' ax'"
      using unw[of fl' ax'] sc[of ax'] that by (cases fl'; cases ax') simp_all
  qed
  show "((k, f) \<in> set animations \<longrightarrow> (fl, ax) \<notin> written k \<longrightarrow>
        transform_of m (snd (f 0 rnd s)) fl ax = transform_of i s fl ax) \<and>
     transform_of m (snd (animatePulse 0 rnd s)) Position = transform_of i s Position \<and>
     transform_of m (snd (animatePulse 0 rnd s)) Rotation = transform_of i s Rotation \<and>
     transform_of m (snd (animatePulse 0 rnd s)) Scale ax = transform_of i s Scale X \<and>
     (transform_of i s Scale Y = transform_of i s Scale X \<longrightarrow>
      transform_of i s Scale Z = transform_of i s Scale X \<longrightarrow>
        transform_of m (snd (animatePulse 0 rnd s)) = transform_of i s)"
  proof (intro conjI impI)
    assume "(k, f) \<in> set animations" "(fl, ax) \<notin> written k"
    then show "transform_of m (snd (f 0 rnd s)) fl ax = transform_of i s fl ax"
      using unwritten_kept[OF _ inv m, of k f fl ax 0 rnd] rest by simp
  next
    show "transform_of m (snd (animatePulse 0 rnd s)) Position = transform_of i s Position"
      by (intro ext) (simp add: unw)
    show "transform_of m (snd (animatePulse 0 rnd s)) Rotation = transform_of i s Rotation"
      by (intro ext) (simp add: unw)
    show "transform_of m (snd (animatePulse 0 rnd s)) Scale ax = transform_of i s Scale X"
      by (rule sc)
  qed (rule uniform)
qed

theorem rest_components_untouched_witness:
  "animator_inv (at_rest unit_pose) \<and> model (at_rest unit_pose) = Some cube \<and>
   transform_of cube (at_rest unit_pose) = unit_pose \<and>
   rest_pose (at_rest unit_pose) = Some unit_pose \<and>
   (''bounce'', animateBounce) \<in> set animations \<and> (Position, X) \<notin> written ''bounce'' \<and>
   transform_of cube (snd (animateBounce 0 no_jitter (at_rest unit_pose))) Position X = 0 \<and>
   transform_of cube (snd (animatePulse 0 no_jitter (at_rest unit_pose))) = unit_pose"
proof -
  have b: "(''bounce'', animateBounce) \<in> set animations" by (simp add: animations_def)
  have u: "unit_pose Scale Y = unit_pose Scale X" "unit_pose Scale Z = unit_pose Scale X"
    "unit_pose Position X = 0"
    by (simp_all add: unit_pose_def)
  show ?thesis
    using rest_components_untouched[of "at_rest unit_pose" cube
        "\<lparr>position = 3, rotation = 4, scale = 5\<rparr>" "''bounce''" animateBounce Position X
        no_jitter] b u at_rest_inv[of unit_pose]
    by (simp add: at_rest_simps at_rest_transform written_simps rest_pose_def)
qed

text \<open>The example of the claim as stated fails for a rest scale of (1, 2, 3): after
  \<open>pulse\<close> at \<open>t = 0\<close> the y scale is 1, not 2.\<close>

theorem pulse_nonuniform_counterexample:
  "model (at_rest stretched_pose) = Some cube \<and>
   rest_pose (at_rest stretched_pose) = Some stretched_pose \<and>
   transform_of cube (at_rest stretched_pose) = stretched_pose \<and>
   transform_of cube (snd (animatePulse 0 no_jitter (at_rest stretched_pose))) Scale Y = 1 \<and>
   stretched_pose Scale Y = 2"
  by (simp add: at_rest_simps at_rest_transform rest_pose_def)
    (simp add: animatePulse_def eff_simps stretched_pose_def)

lemma ticks_keep_unwritten:
  assumes "animator_inv s" "model s = Some m" "currentAnimation s = Some k"
    "k \<in> set (keys animations)" "(fl, ax) \<notin> written k"
  shows "transform_of m (run (ticks ds) s) fl ax = transform_of m s fl ax"
  using assms(1-3)
proof (induction ds arbitrary: s)
  case Nil
  then show ?case by (simp add: ticks_def)
next
  case (Cons d ds)
  obtain dt rnd where d: "d = (dt, rnd)" by (cases d)
  let ?s' = "snd (update dt rnd s)"
  have pres: "animator_inv ?s'" "model ?s' = Some m" "currentAnimation ?s' = Some k"
    using update_preserves[OF Cons.prems(1), of dt rnd] Cons.prems by simp_all
  have one: "transform_of m ?s' fl ax = transform_of m s fl ax"
  proof -
    from update_shape[OF Cons.prems(1), of dt rnd] obtain t' where
      t': "?s' = s\<lparr>time := t'\<rparr> \<or>
       (\<exists>k f. currentAnimation s = Some k \<and> (k, f) \<in> set animations \<and>
          ?s' = snd (f t' rnd (s\<lparr>time := t'\<rparr>)))" by blast
    have inv': "animator_inv (s\<lparr>time := t'\<rparr>)"
      using Cons.prems(1) inv_cong[of "s\<lparr>time := t'\<rparr>" s] by simp
    from t' show ?thesis
    proof
      assume "?s' = s\<lparr>time := t'\<rparr>"
      then show ?thesis by (simp add: transform_of_def)
    next
      assume "\<exists>k f. currentAnimation s = Some k \<and> (k, f) \<in> set animations \<and>
          ?s' = snd (f t' rnd (s\<lparr>time := t'\<rparr>))"
      then obtain f where kf: "(k, f) \<in> set animations"
        and u: "?s' = snd (f t' rnd (s\<lparr>time := t'\<rparr>))"
        using Cons.prems(3) by auto
      show ?thesis
        using unwritten_kept[OF kf inv' _ assms(5), of m t' rnd] Cons.prems(2)
        by (simp add: u transform_of_def)
    qed
  qed
  have "run (ticks (d # ds)) s = run (ticks ds) ?s'"
    by (simp add: ticks_def d)
  then show ?case using Cons.IH[OF pres] one by simp
qed

text \<open>
  Claim C10. Switching the animation does not restore the rest pose: \<open>setAnimation\<close>
  leaves the heap as it is, and once it has resolved a prompt to a registered animation
  \<open>k\<close>, every component of the model that \<open>k\<close> does not write keeps, through any run of
  \<open>update\<close> calls, the value it had when \<open>setAnimation\<close> was called; the rest pose is
  unchanged as well. After \<open>bounce\<close> then \<open>pulse\<close>, \<open>position.y\<close> keeps the offset of
  the last bounce frame.
\<close>

theorem switching_keeps_unwritten:
  "heap (snd (setAnimation p s)) = heap s \<and>
   (animator_inv s \<longrightarrow> model s = Some m \<longrightarrow> parsePrompt p = Name k \<longrightarrow>
    k \<in> set (keys animations) \<longrightarrow> (fl, ax) \<notin> written k \<longrightarrow>
      transform_of m (run (ticks ds) (snd (setAnimation p s))) fl ax = transform_of m s fl ax \<and>
      rest_pose (run (ticks ds) (snd (setAnimation p s))) = rest_pose s)"
proof (intro conjI impI)
  show "heap (snd (setAnimation p s)) = heap s"
    by (cases "parsePrompt p") (simp_all add: setAnimation_def)
next
  assume a: "animator_inv s" "model s = Some m" "parsePrompt p = Name k"
    "k \<in> set (keys animations)" "(fl, ax) \<notin> written k"
  let ?s0 = "s\<lparr>currentAnimation := Some k, time := 0\<rparr>"
  have s0: "snd (setAnimation p s) = ?s0"
    using parsePrompt_Name[OF a(3)] a(3) by (simp add: setAnimation_def)
  have inv0: "animator_inv ?s0" using a(1) inv_cong[of ?s0 s] by simp
  show "transform_of m (run (ticks ds) (snd (setAnimation p s))) fl ax = transform_of m s fl ax"
    using ticks_keep_unwritten[OF inv0 _ _ a(4,5), of m ds] a(2)
    by (simp add: s0 transform_of_def)
  have "list_all (\<lambda>c. \<not> attaches c) (ticks ds)"
    by (induction ds) (auto simp add: ticks_def)
  from run_preserves[OF inv0 this]
  have "rest_pose (run (ticks ds) ?s0) = rest_pose ?s0" by simp
  moreover have "rest_pose ?s0 = rest_pose s"
    by (simp add: rest_pose_def transform_of_def)
  ultimately show "rest_pose (run (ticks ds) (snd (setAnimation p s))) = rest_pose s"
    by (simp add: s0)
qed

theorem switching_keeps_unwritten_witness:
  "animator_inv after_bounce \<and> model after_bounce = Some cube \<and>
   parsePrompt ''pulse'' = Name ''pulse'' \<and> ''pulse'' \<in> set (keys animations) \<and>
   (Position, Y) \<notin> written ''pulse'' \<and>
   transform_of cube after_bounce Position Y = \<bar>sin 4\<bar> / 2 \<and>
   transform_of cube
     (run (ticks [(1, no_jitter), (2, low_jitter)]) (snd (setAnimation ''pulse'' after_bounce)))
     Position Y = \<bar>sin 4\<bar> / 2 \<and>
   rest_pose
     (run (ticks [(1, no_jitter), (2, low_jitter)]) (snd (setAnimation ''pulse'' after_bounce))) =
     Some unit_pose"
proof -
  have inv: "animator_inv after_bounce"
    using bouncing_inv inv_cong[of after_bounce bouncing] by (simp add: after_bounce_eq)
  have m: "model after_bounce = Some cube"
    by (simp add: after_bounce_eq bouncing_eq at_rest_simps)
  have r: "parsePrompt ''pulse'' = Name ''pulse''"
    by (simp add: parsePrompt_def table_defs str_defs)
  have k: "''pulse'' \<in> set (keys animations)" by (simp add: keys_def animations_def)
  have w: "(Position, Y) \<notin> written ''pulse''" by (simp add: written_simps)
  have y: "transform_of cube after_bounce Position Y = \<bar>sin 4\<bar> / 2"
    by (simp add: after_bounce_eq transform_of_def slot_def overlay_def written_simps cube_def
        evaluate_def animateBounce_def prim_defs at_rest_simps unit_pose_def)
  have rp: "rest_pose after_bounce = Some unit_pose"
    using at_rest_transform(2)[of unit_pose]
    by (simp add: rest_pose_def after_bounce_eq bouncing_eq at_rest_simps transform_of_def
        overlay_def slot_def cube_def fun_eq_iff split: field.splits)
  show ?thesis
    using switching_keeps_unwritten[of "''pulse''" after_bounce cube "''pulse''" Position Y
        "[(1, no_jitter), (2, low_jitter)]"] inv m r k w y rp
    by simp
qed

subsection \<open>The rest pose\<close>

text \<open>
  Claim C9. The saved rest pose is never mutated after capture: under the invariant, no
  sequence of calls of \<open>update\<close>, the animation methods, \<open>play\<close>, \<open>pause\<close>, \<open>stop\<close>,
  \<open>setSpeed\<close>, \<open>setAnimation\<close> (or \<open>setModel(null)\<close>) changes the object \<open>initialState\<close>
  refers to or the values of its vectors. \<open>setModel\<close> with a model replaces it: the new
  saved state holds the model's transform of that moment in three newly allocated
  vectors, none of them a vector of the model, and the invariant holds afterwards.
\<close>

theorem rest_pose_immutable:
  "(animator_inv s \<longrightarrow> list_all (\<lambda>c. \<not> attaches c) cs \<longrightarrow>
      initialState (run cs s) = initialState s \<and> rest_pose (run cs s) = rest_pose s) \<and>
   (host_object m s \<longrightarrow>
      animator_inv (setModel (Some m) s) \<and>
      rest_pose (setModel (Some m) s) = Some (transform_of m s) \<and>
      transform_of m (setModel (Some m) s) = transform_of m s \<and>
      (\<exists>i. initialState (setModel (Some m) s) = Some i \<and>
           list_all (\<lambda>r. fresh s \<le> r \<and> r \<notin> set (refs m)) (refs i)))"
proof (intro conjI impI)
  assume "host_object m s"
  note c = setModel_captures[OF this]
  from c(1) c(4) c(5)
  show "\<exists>i. initialState (setModel (Some m) s) = Some i \<and>
           list_all (\<lambda>r. fresh s \<le> r \<and> r \<notin> set (refs m)) (refs i)"
    by (auto simp add: animator_inv_def refs_def)
qed (use run_preserves setModel_captures in blast)+

theorem rest_pose_immutable_witness:
  "animator_inv bouncing \<and> rest_pose bouncing = Some unit_pose \<and>
   rest_pose (run sample_calls bouncing) = Some unit_pose \<and>
   initialState (run sample_calls bouncing) = initialState bouncing \<and>
   host_object cube (new_Animator (posed stretched_pose) 3) \<and>
   rest_pose (setModel (Some cube) (new_Animator (posed stretched_pose) 3)) = Some stretched_pose"
proof -
  have c: "list_all (\<lambda>c. \<not> attaches c) sample_calls"
    by (simp add: sample_calls_def)
  have rp: "rest_pose bouncing = Some unit_pose"
    using at_rest_transform(2)[of unit_pose]
    by (simp add: rest_pose_def bouncing_eq at_rest_simps transform_of_def)
  have h: "host_object cube (new_Animator (posed stretched_pose) 3)"
    by (simp add: host_object_def refs_def cube_def new_Animator_def)
  have t: "transform_of cube (new_Animator (posed stretched_pose) 3) = stretched_pose"
    by (intro ext) (simp add: transform_of_def slot_def cube_def new_Animator_def posed_def
        split: field.splits)
  show ?thesis
    using rest_pose_immutable[of bouncing sample_calls cube]
      rest_pose_immutable[of "new_Animator (posed stretched_pose) 3" sample_calls cube]
      bouncing_inv c rp h t
    by simp
qed

subsection \<open>Stopping\<close>

text \<open>With a model attached, \<open>stop()\<close> does what the specification says
  (\<open>stop_with_model_inv\<close>): the flag is off, the animation is cleared, the clock is 0 and
  the model's transform is the rest pose.\<close>

text \<open>
  Claim C5. \<open>stop()\<close>, called in any state, clears the current animation, resets the
  clock to 0 and resets the model's transform to the saved rest pose.

  The clock is reset inside \<open>resetToInitialState\<close>, after its guard
  \<open>if (!this.model || !this.initialState) return;\<close>. In the state \<open>removed\<close> there is no
  model and the clock reads 1: \<open>stop()\<close> clears the animation and the flag, and the
  clock still reads 1.
\<close>

theorem stop_without_model_keeps_time:
  "model removed = None \<and> time removed = 1 \<and>
   time (stop removed) = 1 \<and> currentAnimation (stop removed) = None \<and>
   \<not> isPlaying (stop removed)"
proof -
  have m: "model removed = None" by (simp add: removed_eq)
  then have "stop removed = removed\<lparr>isPlaying := False, currentAnimation := None\<rparr>"
    by (simp add: stop_without_model)
  then show ?thesis using m by (simp add: removed_eq)
qed

end
